theory Spec2Isabelle
  imports Complex_Main "HOL-Library.Word" "HOL-Library.Sublist"
begin

unbundle bit_operations_syntax

section \<open>Strings and lexical paths\<close>

text \<open>
  \<^verbatim>\<open>std::string::find(pat)\<close> from position 0: the first position where \<open>pat\<close> occurs,
  \<open>None\<close> for \<^verbatim>\<open>npos\<close>.
\<close>

fun find_str :: "string \<Rightarrow> string \<Rightarrow> nat option" where
  "find_str [] pat = (if pat = [] then Some 0 else None)"
| "find_str (c # cs) pat =
     (if prefix pat (c # cs) then Some 0 else map_option Suc (find_str cs pat))"

text \<open>
  A path is the list of its elements after the root directory (POSIX paths, as the
  directories of \<^verbatim>\<open>LoadModel\<close> are); the empty list is the empty path \<^verbatim>\<open>path()\<close>.
  \<^verbatim>\<open>path::string()\<close> of a relative path joins the elements with the separator.
\<close>

type_synonym path = "string list"

fun path_string :: "path \<Rightarrow> string" where
  "path_string [] = []"
| "path_string [c] = c"
| "path_string (c # d # ds) = c @ ''/'' @ path_string (d # ds)"

text \<open>\<^verbatim>\<open>std::mismatch\<close> over the two element sequences: what is left of each after the common prefix.\<close>

fun mismatch :: "path \<Rightarrow> path \<Rightarrow> path \<times> path" where
  "mismatch (x # xs) (y # ys) = (if x = y then mismatch xs ys else (x # xs, y # ys))"
| "mismatch xs ys = (xs, ys)"

text \<open>
  \<^verbatim>\<open>path::lexically_relative(base)\<close> of the C++ standard, for two absolute paths with the
  same root: \<open>n\<close> counts the elements left of \<open>base\<close> that are names, minus those that are
  dot-dot.
\<close>

definition lexically_relative :: "path \<Rightarrow> path \<Rightarrow> path" where
  "lexically_relative p base =
     (case mismatch p base of (a, b) \<Rightarrow>
        if a = [] \<and> b = [] then [''.'']
        else
          let n = int (length (filter (\<lambda>e. e \<noteq> ''.'' \<and> e \<noteq> ''..'' \<and> e \<noteq> []) b))
                  - int (length (filter (\<lambda>e. e = ''..'') b))
          in if n < 0 then []
             else if n = 0 \<and> (a = [] \<or> hd a = []) then [''.'']
             else replicate (nat n) ''..'' @ a)"

section \<open>The filesystem as the security checks see it\<close>

text \<open>
  The checks of \<^verbatim>\<open>security-utils.cpp\<close> query the filesystem through \<^verbatim>\<open>std::filesystem\<close> and
  \<^verbatim>\<open>std::ifstream\<close>. The model takes the filesystem as a value; a query that throws
  \<^verbatim>\<open>filesystem_error\<close> answers \<open>None\<close>.
  \<^item> \<open>fs_resolve\<close>: \<^verbatim>\<open>weakly_canonical(absolute(p))\<close>, which is what \<^verbatim>\<open>fs::relative\<close> applies to both
    of its arguments before \<^verbatim>\<open>lexically_relative\<close>;
  \<^item> \<open>fs_exists\<close>, \<open>fs_is_regular_file\<close>, \<open>fs_file_size\<close>: the queries of the same names
    (\<^verbatim>\<open>uintmax_t\<close> is 64 bits wide);
  \<^item> \<open>fs_contents\<close>: the bytes of the file, \<open>None\<close> when the stream does not open;
  \<^item> \<open>sha256\<close>: the digest OpenSSL leaves in \<^verbatim>\<open>hash[0..31]\<close>.
  Every query is recorded, in order, in a trace of events: \<open>HashFile\<close> is the stream that
  \<^verbatim>\<open>CalculateFileSHA256\<close> opens and reads, \<open>CreateSession\<close> the construction of the inference
  session from the model file.
\<close>

datatype event =
  Resolve string | Exists string | IsRegularFile string | FileSize string | HashFile string |
  CreateSession string

record filesystem =
  fs_resolve :: "string \<Rightarrow> path option"
  fs_exists :: "string \<Rightarrow> bool option"
  fs_is_regular_file :: "string \<Rightarrow> bool option"
  fs_file_size :: "string \<Rightarrow> 64 word option"
  fs_contents :: "string \<Rightarrow> 8 word list option"
  sha256 :: "8 word list \<Rightarrow> nat \<Rightarrow> 8 word"

subsection \<open>CalculateFileSHA256 and VerifyFileChecksum\<close>

definition hex_digit :: "nat \<Rightarrow> char" where
  "hex_digit n = ''0123456789abcdef'' ! (n mod 16)"

definition hex_byte :: "8 word \<Rightarrow> string" where
  "hex_byte b = [hex_digit (unat b div 16), hex_digit (unat b mod 16)]"

definition CalculateFileSHA256 :: "filesystem \<Rightarrow> string \<Rightarrow> string \<times> event list" where
  "CalculateFileSHA256 env filepath =
     (case fs_contents env filepath of
        None \<Rightarrow> ([], [HashFile filepath])
      | Some bytes \<Rightarrow>
          (concat (map (\<lambda>i. hex_byte (sha256 env bytes i)) [0..<32]), [HashFile filepath]))"

text \<open>\<^verbatim>\<open>::tolower\<close> in the C locale.\<close>

definition to_lower :: "char \<Rightarrow> char" where
  "to_lower c =
     (let n = (of_char c :: nat) in if 65 \<le> n \<and> n \<le> 90 then char_of (n + 32) else c)"

definition VerifyFileChecksum :: "filesystem \<Rightarrow> string \<Rightarrow> string \<Rightarrow> bool \<times> event list" where
  "VerifyFileChecksum env filepath expected_hash =
     (if expected_hash = [] then (True, [])
      else
        (case CalculateFileSHA256 env filepath of (calculated_hash, t) \<Rightarrow>
           if calculated_hash = [] then (False, t)
           else if map to_lower expected_hash \<noteq> map to_lower calculated_hash then (False, t)
           else (True, t)))"

subsection \<open>ValidatePath\<close>

text \<open>
  The loop over the allowed base directories. An exception of \<^verbatim>\<open>fs::absolute\<close> or
  \<^verbatim>\<open>fs::relative\<close> leaves the loop through the handler of \<^verbatim>\<open>ValidatePath\<close>, which returns false.
  The trace records one resolution of the path and one of every base directory examined;
  \<^verbatim>\<open>fs::relative\<close> resolves the path again for every base directory, to the same canonical
  path, and these repeated queries are not recorded.
\<close>

fun check_bases :: "filesystem \<Rightarrow> path \<Rightarrow> string list \<Rightarrow> bool \<times> event list" where
  "check_bases env abs_path [] = (False, [])"
| "check_bases env abs_path (allowed_base # rest) =
     (case fs_resolve env allowed_base of
        None \<Rightarrow> (False, [Resolve allowed_base])
      | Some allowed_abs \<Rightarrow>
          (let rel = lexically_relative abs_path allowed_abs in
           if rel \<noteq> [] \<and> find_str (path_string rel) ''..'' = None
           then (True, [Resolve allowed_base])
           else (case check_bases env abs_path rest of
                   (r, t) \<Rightarrow> (r, Resolve allowed_base # t))))"

definition ValidatePath :: "filesystem \<Rightarrow> string \<Rightarrow> string list \<Rightarrow> bool \<times> event list" where
  "ValidatePath env filepath allowed_base_paths =
     (if find_str filepath ''..'' \<noteq> None then (False, [])
      else
        (case fs_resolve env filepath of
           None \<Rightarrow> (False, [Resolve filepath])
         | Some abs_path \<Rightarrow>
             (case check_bases env abs_path allowed_base_paths of
                (r, t) \<Rightarrow> (r, Resolve filepath # t))))"

subsection \<open>VerifyModelIntegrity\<close>

definition max_size :: "64 word" where
  "max_size = 500 * 1024 * 1024"

text \<open>
  The result is \<open>None\<close> when a filesystem query throws: \<^verbatim>\<open>VerifyModelIntegrity\<close> has no handler
  of its own. The extension test only writes a warning to the log and is not modelled.
\<close>

definition VerifyModelIntegrity ::
  "filesystem \<Rightarrow> string \<Rightarrow> string \<Rightarrow> bool option \<times> event list" where
  "VerifyModelIntegrity env model_path expected_hash =
     (case fs_exists env model_path of
        None \<Rightarrow> (None, [Exists model_path])
      | Some False \<Rightarrow> (Some False, [Exists model_path])
      | Some True \<Rightarrow>
     (case fs_is_regular_file env model_path of
        None \<Rightarrow> (None, [Exists model_path, IsRegularFile model_path])
      | Some False \<Rightarrow> (Some False, [Exists model_path, IsRegularFile model_path])
      | Some True \<Rightarrow>
     (case fs_file_size env model_path of
        None \<Rightarrow> (None, [Exists model_path, IsRegularFile model_path, FileSize model_path])
      | Some file_size \<Rightarrow>
          if file_size > max_size
          then (Some False, [Exists model_path, IsRegularFile model_path, FileSize model_path])
          else if expected_hash \<noteq> []
          then (case VerifyFileChecksum env model_path expected_hash of
                  (ok, t) \<Rightarrow>
                    (Some ok,
                     [Exists model_path, IsRegularFile model_path, FileSize model_path] @ t))
          else (Some True,
                [Exists model_path, IsRegularFile model_path, FileSize model_path]))))"

subsection \<open>The gate: ValidatePath, then VerifyModelIntegrity\<close>

datatype gate_result = Authorized | Rejected

text \<open>
  The two calls as \<^verbatim>\<open>LoadModel\<close> makes them, with the expected hash passed on to
  \<^verbatim>\<open>VerifyModelIntegrity\<close>. An exception of the second call ends in the handler of the caller,
  which refuses the model.
\<close>

definition authorize ::
  "filesystem \<Rightarrow> string \<Rightarrow> string list \<Rightarrow> string \<Rightarrow> gate_result \<times> event list" where
  "authorize env model_path allowed_dirs expected_hash =
     (case ValidatePath env model_path allowed_dirs of
        (False, t) \<Rightarrow> (Rejected, t)
      | (True, t) \<Rightarrow>
          (case VerifyModelIntegrity env model_path expected_hash of
             (Some True, t') \<Rightarrow> (Authorized, t @ t')
           | (_, t') \<Rightarrow> (Rejected, t @ t')))"

subsection \<open>The vocabulary of the allow-list and integrity properties\<close>

definition canonical :: "path \<Rightarrow> bool" where
  "canonical p = list_all (\<lambda>c. c \<noteq> [] \<and> c \<noteq> ''.'' \<and> c \<noteq> ''..'') p"

definition resolves_inside :: "filesystem \<Rightarrow> string \<Rightarrow> string \<Rightarrow> bool" where
  "resolves_inside env filepath base =
     (case (fs_resolve env filepath, fs_resolve env base) of
        (Some p, Some b) \<Rightarrow> prefix b p
      | _ \<Rightarrow> False)"

definition inside_without_dotdot :: "filesystem \<Rightarrow> string \<Rightarrow> string \<Rightarrow> bool" where
  "inside_without_dotdot env filepath base =
     (case (fs_resolve env filepath, fs_resolve env base) of
        (Some p, Some b) \<Rightarrow>
          prefix b p \<and> find_str (path_string (drop (length b) p)) ''..'' = None
      | _ \<Rightarrow> False)"

definition canonical_bases :: "filesystem \<Rightarrow> string list \<Rightarrow> bool" where
  "canonical_bases env allowed =
     list_all (\<lambda>base. case fs_resolve env base of None \<Rightarrow> True | Some b \<Rightarrow> canonical b) allowed"

definition passes_file_checks :: "filesystem \<Rightarrow> string \<Rightarrow> bool" where
  "passes_file_checks env model_path \<longleftrightarrow>
     fs_exists env model_path = Some True \<and>
     fs_is_regular_file env model_path = Some True \<and>
     (case fs_file_size env model_path of None \<Rightarrow> False | Some sz \<Rightarrow> unat sz \<le> 500 * 1024 * 1024)"

definition hash_matches :: "filesystem \<Rightarrow> string \<Rightarrow> string \<Rightarrow> bool" where
  "hash_matches env model_path expected_hash \<longleftrightarrow>
     expected_hash = [] \<or>
     map to_lower expected_hash = map to_lower (fst (CalculateFileSHA256 env model_path))"

section \<open>Loading the model\<close>

text \<open>
  A session of the inference runtime, by the answers to the queries that \<^verbatim>\<open>LoadModel\<close> makes
  once it is constructed: the number of input nodes, the name and the shape of the first
  input, and the same for the outputs. A query that throws answers \<open>None\<close>.
\<close>

record session_info =
  GetInputCount :: "nat option"
  GetInputName :: "string option"
  GetInputShape :: "64 word list option"
  GetOutputCount :: "nat option"
  GetOutputName :: "string option"
  GetOutputShape :: "64 word list option"

text \<open>
  The members of \<^verbatim>\<open>ModelInference\<close> that \<^verbatim>\<open>LoadModel\<close> and \<^verbatim>\<open>RunInference\<close> use: \<open>mi_model_loaded\<close>
  is \<^verbatim>\<open>model_loaded_\<close>, and so on.
\<close>

record ModelInference =
  mi_model_loaded :: bool
  mi_input_height :: "32 word"
  mi_input_width :: "32 word"
  mi_session :: "session_info option"
  mi_input_names :: "string list"
  mi_output_names :: "string list"
  mi_input_shape :: "64 word list"
  mi_output_shape :: "64 word list"

text \<open>The constructor.\<close>

definition new_ModelInference :: ModelInference where
  "new_ModelInference =
     \<lparr>mi_model_loaded = False, mi_input_height = 320, mi_input_width = 320, mi_session = None,
      mi_input_names = [], mi_output_names = [], mi_input_shape = [], mi_output_shape = []\<rparr>"

text \<open>The allowed model directories; \<open>home\<close> is \<^verbatim>\<open>getenv("HOME")\<close>.\<close>

definition allowed_dirs :: "string option \<Rightarrow> string list" where
  "allowed_dirs home =
     (case home of
        None \<Rightarrow> []
      | Some h \<Rightarrow>
          [h @ ''/.config/obs-studio/plugins/obs-background-filter/data/models'',
           h @ ''/.config/obs-studio/plugins/obs-background-filter/data'']) @
     [''/usr/share/obs/obs-plugins/obs-background-filter/models'',
      ''/usr/local/share/obs/obs-plugins/obs-background-filter/models'']"






section \<open>A concrete filesystem\<close>

text \<open>A small filesystem on which the functions can be evaluated.\<close>

definition demo_fs :: filesystem where
  "demo_fs =
     \<lparr>fs_resolve =
        [''/models'' \<mapsto> [''models''],
         ''/models/u2net.onnx'' \<mapsto> [''models'', ''u2net.onnx''],
         ''/models/net..onnx'' \<mapsto> [''models'', ''net..onnx''],
         ''/models/huge.onnx'' \<mapsto> [''models'', ''huge.onnx''],
         ''/tmp/evil.onnx'' \<mapsto> [''tmp'', ''evil.onnx''],
         ''/usr/share/obs/obs-plugins/obs-background-filter/models'' \<mapsto>
           [''usr'', ''share'', ''obs'', ''obs-plugins'', ''obs-background-filter'', ''models''],
         ''/usr/local/share/obs/obs-plugins/obs-background-filter/models'' \<mapsto>
           [''usr'', ''local'', ''share'', ''obs'', ''obs-plugins'', ''obs-background-filter'',
            ''models''],
         ''/usr/share/obs/obs-plugins/obs-background-filter/models/u2net.onnx'' \<mapsto>
           [''usr'', ''share'', ''obs'', ''obs-plugins'', ''obs-background-filter'', ''models'',
            ''u2net.onnx''],
         ''/usr/share/obs/obs-plugins/obs-background-filter/models/net..onnx'' \<mapsto>
           [''usr'', ''share'', ''obs'', ''obs-plugins'', ''obs-background-filter'', ''models'',
            ''net..onnx'']],
      fs_exists = (\<lambda>p. Some True),
      fs_is_regular_file = (\<lambda>p. Some True),
      fs_file_size = (\<lambda>p. Some (if p = ''/models/huge.onnx'' then 600 * 1024 * 1024 else 4096)),
      fs_contents = (\<lambda>p. Some []),
      sha256 = (\<lambda>bytes i. 0xAB)\<rparr>"

definition demo_ort :: "string \<Rightarrow> session_info option" where
  "demo_ort p =
     Some \<lparr>GetInputCount = Some 1, GetInputName = Some ''input'',
           GetInputShape = Some [1, 3, 320, 320],
           GetOutputCount = Some 1, GetOutputName = Some ''output'',
           GetOutputShape = Some [1, 1, 320, 320]\<rparr>"

definition demo_hash :: string where
  "demo_hash = ''ABabABabABabABabABabABabABabABabABabABabABabABabABabABabABabABab''"

definition demo_model :: string where
  "demo_model = ''/usr/share/obs/obs-plugins/obs-background-filter/models/u2net.onnx''"


section \<open>Floating-point values\<close>

text \<open>
  A C \<^verbatim>\<open>float\<close> as far as its comparisons go: a finite value, an infinity or a NaN. The finite
  values are modelled by the real numbers. \<open>flt_less\<close> and \<open>flt_greater\<close> are the operators
  \<^verbatim>\<open><\<close> and \<^verbatim>\<open>>\<close>: false whenever an operand is a NaN. The arithmetic of the sigmoid, with its
  rounding and its overflow, is that of the next subsection; the images and masks further
  down take the arithmetic on finite values as exact.
\<close>

datatype c_float = Fin real | PInf | NInf | NaN

fun flt_less :: "c_float \<Rightarrow> c_float \<Rightarrow> bool" where
  "flt_less NaN b = False"
| "flt_less a NaN = False"
| "flt_less (Fin x) (Fin y) = (x < y)"
| "flt_less (Fin x) PInf = True"
| "flt_less (Fin x) NInf = False"
| "flt_less PInf b = False"
| "flt_less NInf NInf = False"
| "flt_less NInf b = True"

definition flt_greater :: "c_float \<Rightarrow> c_float \<Rightarrow> bool" where
  "flt_greater a b = flt_less b a"

text \<open>\<^verbatim>\<open><=\<close>, which the source does not use; the properties of the threshold are stated with it.\<close>

definition flt_le :: "c_float \<Rightarrow> c_float \<Rightarrow> bool" where
  "flt_le a b = (a \<noteq> NaN \<and> b \<noteq> NaN \<and> \<not> flt_less b a)"

text \<open>Membership of a float in the closed interval from \<open>lo\<close> to \<open>hi\<close>: a finite value in it.\<close>

definition in_range :: "real \<Rightarrow> real \<Rightarrow> c_float \<Rightarrow> bool" where
  "in_range lo hi t = (case t of Fin r \<Rightarrow> lo \<le> r \<and> r \<le> hi | _ \<Rightarrow> False)"

subsection \<open>Single-precision arithmetic\<close>

text \<open>
  The arithmetic of line 239 of \<^verbatim>\<open>model-inference.cpp\<close> is that of the type \<^verbatim>\<open>float\<close>: every
  operation gives the exact result rounded to the nearest single-precision number, a tie going
  to the one with an even significand. \<open>nearest_even\<close> rounds a real number to an integer by
  that rule.
\<close>

definition nearest_even :: "real \<Rightarrow> int" where
  "nearest_even v =
     (let f = \<lfloor>v\<rfloor>; d = v - of_int f
      in if d < 1 / 2 then f else if d > 1 / 2 then f + 1 else if even f then f else f + 1)"

text \<open>
  The binary exponent of a nonzero real number, not below that of the subnormal numbers, and
  the distance between neighbouring single-precision numbers at that exponent: the
  significand has 24 bits.
\<close>

definition exponent32 :: "real \<Rightarrow> int" where
  "exponent32 x = max \<lfloor>log 2 \<bar>x\<bar>\<rfloor> (- 126)"

definition ulp32 :: "real \<Rightarrow> real" where
  "ulp32 x = 2 powr of_int (exponent32 x - 23)"

text \<open>
  Rounding to single precision: a multiple of the distance above, or an infinity when the
  rounded value is beyond the largest finite number. The model has one zero: the sign of a
  zero is not kept.
\<close>

definition round32 :: "real \<Rightarrow> c_float" where
  "round32 x =
     (if x = 0 then Fin 0
      else
        (let r = of_int (nearest_even (x / ulp32 x)) * ulp32 x
         in if \<bar>r\<bar> \<ge> 2 ^ 128 then (if 0 < x then PInf else NInf) else Fin r))"

fun flt_neg :: "c_float \<Rightarrow> c_float" where
  "flt_neg (Fin x) = Fin (- x)"
| "flt_neg PInf = NInf"
| "flt_neg NInf = PInf"
| "flt_neg NaN = NaN"

fun flt_add :: "c_float \<Rightarrow> c_float \<Rightarrow> c_float" where
  "flt_add NaN b = NaN"
| "flt_add a NaN = NaN"
| "flt_add (Fin x) (Fin y) = round32 (x + y)"
| "flt_add PInf NInf = NaN"
| "flt_add NInf PInf = NaN"
| "flt_add PInf b = PInf"
| "flt_add NInf b = NInf"
| "flt_add (Fin x) b = b"

text \<open>
  Division. A finite number divided by zero gives an infinity whose sign depends on the sign
  of the zero; the model gives the one for a positive zero.
\<close>

fun flt_div :: "c_float \<Rightarrow> c_float \<Rightarrow> c_float" where
  "flt_div NaN b = NaN"
| "flt_div a NaN = NaN"
| "flt_div (Fin x) (Fin y) =
     (if y = 0 then (if x = 0 then NaN else if 0 < x then PInf else NInf)
      else round32 (x / y))"
| "flt_div (Fin x) b = Fin 0"
| "flt_div PInf (Fin y) = (if y < 0 then NInf else PInf)"
| "flt_div NInf (Fin y) = (if y < 0 then PInf else NInf)"
| "flt_div a b = NaN"

text \<open>
  \<^verbatim>\<open>std::exp\<close> on a \<^verbatim>\<open>float\<close> is a function of the mathematical library and a parameter of the
  model. What is required of it: a NaN for a NaN, the limits at the infinities, and for a
  finite argument either a finite result that is not negative and is within a relative
  error of \<open>2\<^sup>-\<^sup>2\<^sup>0\<close> of the exponential (or within half the smallest subnormal step), or
  positive infinity when the exponential is at least \<open>2\<^sup>1\<^sup>2\<^sup>7\<close>.
\<close>

definition faithful_exp :: "(c_float \<Rightarrow> c_float) \<Rightarrow> bool" where
  "faithful_exp expf \<longleftrightarrow>
     expf NaN = NaN \<and> expf PInf = PInf \<and> expf NInf = Fin 0 \<and>
     (\<forall>x. case expf (Fin x) of
            Fin y \<Rightarrow> 0 \<le> y \<and> \<bar>y - exp x\<bar> \<le> exp x / 2 ^ 20 + 1 / 2 ^ 149
          | PInf \<Rightarrow> 2 ^ 127 \<le> exp x
          | _ \<Rightarrow> False)"

text \<open>The exponential rounded to the nearest single-precision number.\<close>

fun exp32 :: "c_float \<Rightarrow> c_float" where
  "exp32 (Fin x) = round32 (exp x)"
| "exp32 PInf = PInf"
| "exp32 NInf = Fin 0"
| "exp32 NaN = NaN"

text \<open>Line 239: \<^verbatim>\<open>1.0f / (1.0f + std::exp(-value))\<close>.\<close>

definition sigmoid32 :: "(c_float \<Rightarrow> c_float) \<Rightarrow> c_float \<Rightarrow> c_float" where
  "sigmoid32 expf value = flt_div (Fin 1) (flt_add (Fin 1) (expf (flt_neg value)))"

text \<open>Lines 237 to 241 for one raw value: the sigmoid, then the threshold.\<close>

definition mask_value32 :: "(c_float \<Rightarrow> c_float) \<Rightarrow> c_float \<Rightarrow> c_float \<Rightarrow> c_float" where
  "mask_value32 expf threshold value =
     (let value' = sigmoid32 expf value
      in if flt_greater value' threshold then value' else Fin 0)"

text \<open>The loop of \<^verbatim>\<open>Postprocess\<close> over the first \<open>n\<close> values of the output tensor, in single precision.\<close>

definition mask_values32 ::
  "(c_float \<Rightarrow> c_float) \<Rightarrow> c_float \<Rightarrow> c_float list \<Rightarrow> nat \<Rightarrow> c_float list" where
  "mask_values32 expf threshold output_data n =
     map (mask_value32 expf threshold) (take n output_data)"

text \<open>A float strictly between 0 and 1.\<close>

definition in_open_unit :: "c_float \<Rightarrow> bool" where
  "in_open_unit p = (case p of Fin r \<Rightarrow> 0 < r \<and> r < 1 | _ \<Rightarrow> False)"

section \<open>Configuration\<close>

text \<open>
  \<^verbatim>\<open>ValidateConfigValues\<close>. The two \<^verbatim>\<open>int\<close> parameters are compared as integers: a comparison
  of two \<^verbatim>\<open>int\<close> values does not overflow.
\<close>

definition ValidateConfigValues :: "c_float \<Rightarrow> int \<Rightarrow> int \<Rightarrow> bool" where
  "ValidateConfigValues threshold blur_amount edge_smoothing =
     (if flt_less threshold (Fin 0) \<or> flt_greater threshold (Fin 1) then False
      else if blur_amount < 1 \<or> blur_amount > 50 then False
      else if edge_smoothing < 1 \<or> edge_smoothing > 10 then False
      else True)"

text \<open>The three values after the validation block: the safe defaults when validation fails.\<close>

definition validated_values :: "c_float \<Rightarrow> int \<Rightarrow> int \<Rightarrow> c_float \<times> int \<times> int" where
  "validated_values threshold blur_amount edge_smoothing =
     (if \<not> ValidateConfigValues threshold blur_amount edge_smoothing
      then (Fin (1 / 2), 15, 3)
      else (threshold, blur_amount, edge_smoothing))"

text \<open>The conversion \<^verbatim>\<open>(int)\<close> of a 64-bit integer: the low 32 bits, read as signed.\<close>

definition to_int :: "64 word \<Rightarrow> int" where
  "to_int v = sint (ucast v :: 32 word)"

section \<open>Images and masks\<close>

text \<open>
  A single-channel float matrix (\<^verbatim>\<open>CV_32FC1\<close>) and a three-channel byte image (\<^verbatim>\<open>CV_8UC3\<close>, in
  the order blue, green, red), both stored row by row. The values of a mask and of the raw
  output of the model are real numbers: among them the model has no NaN, no infinity and no
  rounding.
\<close>

record mat =
  m_rows :: nat
  m_cols :: nat
  m_data :: "real list"

type_synonym pixel = "8 word \<times> 8 word \<times> 8 word"

record image =
  i_rows :: nat
  i_cols :: nat
  i_data :: "pixel list"

text \<open>\<^verbatim>\<open>cv::Size\<close>: the width comes first.\<close>

record cv_size =
  sz_width :: int
  sz_height :: int

text \<open>
  What a function of the pipeline does: it produces a value; or it fails, by returning false
  or by an exception that a handler of the source catches; or it reads or writes outside a
  buffer, which the language leaves undefined.
\<close>

datatype 'a outcome = Done 'a | Failed | Undefined

subsection \<open>Resampling: the library's resize and blur\<close>

text \<open>
  \<^verbatim>\<open>cv::resize\<close> with linear interpolation and \<^verbatim>\<open>cv::GaussianBlur\<close> are functions of the image
  library. Each sample of their result is a weighted sum of samples of the source
  matrix. The weights are a parameter of the model: a kernel gives, for the sizes of source and
  result and a position in the result, the list of taps, each a source index with its weight.
\<close>

type_synonym taps = "(nat \<times> real) list"

type_synonym kernel = "nat \<times> nat \<Rightarrow> nat \<times> nat \<Rightarrow> nat \<times> nat \<Rightarrow> taps"

definition apply_taps :: "real list \<Rightarrow> taps \<Rightarrow> real" where
  "apply_taps src t = sum_list (map (\<lambda>(i, w). w * src ! i) t)"

definition resample :: "kernel \<Rightarrow> mat \<Rightarrow> nat \<Rightarrow> nat \<Rightarrow> mat" where
  "resample k src rows cols =
     \<lparr>m_rows = rows, m_cols = cols,
      m_data =
        concat (map (\<lambda>y. map (\<lambda>x. apply_taps (m_data src)
                                    (k (m_rows src, m_cols src) (rows, cols) (y, x)))
                          [0..<cols])
                    [0..<rows])\<rparr>"



text \<open>\<^verbatim>\<open>cv::resize\<close> throws on an empty source and on an empty requested size.\<close>

definition cv_resize :: "kernel \<Rightarrow> mat \<Rightarrow> cv_size \<Rightarrow> mat outcome" where
  "cv_resize k src dsize =
     (if m_rows src = 0 \<or> m_cols src = 0 \<or> sz_width dsize \<le> 0 \<or> sz_height dsize \<le> 0
      then Failed
      else Done (resample k src (nat (sz_height dsize)) (nat (sz_width dsize))))"

text \<open>
  \<^verbatim>\<open>cv::GaussianBlur\<close> in place, with a kernel size that must be odd and positive; the result has
  the size of the source.
\<close>

definition cv_GaussianBlur :: "(cv_size \<Rightarrow> kernel) \<Rightarrow> mat \<Rightarrow> cv_size \<Rightarrow> mat outcome" where
  "cv_GaussianBlur g src ksize =
     (if sz_width ksize \<le> 0 \<or> sz_height ksize \<le> 0 \<or> even (sz_width ksize) \<or> even (sz_height ksize)
      then Failed
      else Done (resample (g ksize) src (m_rows src) (m_cols src)))"

subsection \<open>Postprocess\<close>

text \<open>
  The sigmoid of line 239 over the real numbers, which the single-precision \<open>sigmoid32\<close>
  approximates. The mask of the image pipeline is built from it: its values are those of
  exact arithmetic, without a NaN and without rounding to 0 or to 1.
\<close>

definition sigmoid :: "real \<Rightarrow> real" where
  "sigmoid value = 1 / (1 + exp (- value))"

text \<open>The threshold of line 241: \<^verbatim>\<open>value > threshold ? value : 0.0f\<close>.\<close>

definition threshold_step :: "c_float \<Rightarrow> real \<Rightarrow> real" where
  "threshold_step threshold value = (if flt_greater (Fin value) threshold then value else 0)"

text \<open>The loop of \<^verbatim>\<open>Postprocess\<close> over the first \<open>n\<close> values of the output tensor.\<close>

definition mask_values :: "c_float \<Rightarrow> real list \<Rightarrow> nat \<Rightarrow> real list" where
  "mask_values threshold output_data n =
     map (\<lambda>value. threshold_step threshold (sigmoid value)) (take n output_data)"

text \<open>
  \<^verbatim>\<open>Postprocess\<close>. The constructor of the matrix throws on a negative size; reading more values
  than the tensor holds is undefined. The bound of the loop is the product of the two sizes
  as an integer without a bound; in the source it is a 32-bit \<^verbatim>\<open>int\<close>, the same number as long as
  the product is below \<open>2\<^sup>3\<^sup>1\<close>.
\<close>

definition Postprocess ::
  "kernel \<Rightarrow> real list \<Rightarrow> int \<Rightarrow> int \<Rightarrow> int \<Rightarrow> int \<Rightarrow> c_float \<Rightarrow> mat outcome" where
  "Postprocess k output_data output_height output_width target_height target_width threshold =
     (if output_height < 0 \<or> output_width < 0 then Failed
      else if length output_data < nat (output_height * output_width) then Undefined
      else
        (let mask = \<lparr>m_rows = nat output_height, m_cols = nat output_width,
                     m_data = mask_values threshold output_data
                                (nat (output_height * output_width))\<rparr>
         in cv_resize k mask \<lparr>sz_width = target_width, sz_height = target_height\<rparr>))"

subsection \<open>RunInference\<close>

text \<open>The first output tensor of a run of the session: its shape and its values.\<close>

record tensor =
  t_shape :: "64 word list"
  t_data :: "real list"

text \<open>
  \<^verbatim>\<open>RunInference\<close> in a build with the inference runtime. \<open>run\<close> stands for \<^verbatim>\<open>Preprocess\<close>, the
  packing of the input tensor and the run of the session; it answers \<open>None\<close> when one of them
  throws, and the handler then returns false. Reading the third and fourth dimension of a
  shape with fewer than four entries is undefined.
\<close>

definition RunInference ::
  "(image \<Rightarrow> tensor option) \<Rightarrow> kernel \<Rightarrow> ModelInference \<Rightarrow> image \<Rightarrow> c_float \<Rightarrow> mat outcome" where
  "RunInference run k m input_frame threshold =
     (if \<not> mi_model_loaded m \<or> mi_session m = None then Failed
      else
        (case run input_frame of
           None \<Rightarrow> Failed
         | Some out \<Rightarrow>
             if length (t_shape out) < 4 then Undefined
             else Postprocess k (t_data out)
                    (to_int (t_shape out ! 2)) (to_int (t_shape out ! 3))
                    (int (i_rows input_frame)) (int (i_cols input_frame)) threshold))"

subsection \<open>Pixel arithmetic\<close>

text \<open>\<^verbatim>\<open>cvRound\<close>: to the nearest integer, a tie to the even one.\<close>

definition cvRound :: "real \<Rightarrow> int" where
  "cvRound v =
     (let f = \<lfloor>v\<rfloor>; d = v - of_int f
      in if d < 1 / 2 then f else if d > 1 / 2 then f + 1 else if even f then f else f + 1)"

text \<open>\<^verbatim>\<open>saturate_cast<uchar>\<close> of an integer and of a float.\<close>

definition saturate_int :: "int \<Rightarrow> 8 word" where
  "saturate_int v = (if v < 0 then 0 else if v > 255 then 255 else word_of_int v)"

definition saturate_uchar :: "real \<Rightarrow> 8 word" where
  "saturate_uchar v = saturate_int (cvRound v)"

text \<open>
  \<^verbatim>\<open>Vec3b * float\<close> and \<^verbatim>\<open>Vec3b + Vec3b\<close>: every channel is computed and then saturated to a
  byte. The product of a channel and the weight is taken as the exact real number; the library
  rounds it to a \<^verbatim>\<open>float\<close> first, which is the same number when the weight is 0 or 1.
\<close>

definition vec_scale :: "pixel \<Rightarrow> real \<Rightarrow> pixel" where
  "vec_scale p alpha =
     (case p of (b, g, r) \<Rightarrow>
        (saturate_uchar (real (unat b) * alpha), saturate_uchar (real (unat g) * alpha),
         saturate_uchar (real (unat r) * alpha)))"

definition vec_add :: "pixel \<Rightarrow> pixel \<Rightarrow> pixel" where
  "vec_add p q =
     (case (p, q) of ((b, g, r), (b', g', r')) \<Rightarrow>
        (saturate_int (int (unat b) + int (unat b')), saturate_int (int (unat g) + int (unat g')),
         saturate_int (int (unat r) + int (unat r'))))"

definition blend :: "pixel \<Rightarrow> real \<Rightarrow> pixel \<Rightarrow> pixel" where
  "blend fg alpha bg = vec_add (vec_scale fg alpha) (vec_scale bg (1 - alpha))"

text \<open>\<^verbatim>\<open>at(y, x)\<close>: the element at row \<open>y\<close> and column \<open>x\<close>; \<open>None\<close> outside the buffer.\<close>

definition mask_at :: "mat \<Rightarrow> nat \<Rightarrow> nat \<Rightarrow> real option" where
  "mask_at msk y x =
     (let i = y * m_cols msk + x
      in if i < length (m_data msk) then Some (m_data msk ! i) else None)"

definition pixel_at :: "image \<Rightarrow> nat \<Rightarrow> nat \<Rightarrow> pixel option" where
  "pixel_at img y x =
     (let i = y * i_cols img + x
      in if i < length (i_data img) then Some (i_data img ! i) else None)"

text \<open>The two nested loops over the rows and columns of the output frame.\<close>

definition per_pixel :: "nat \<Rightarrow> nat \<Rightarrow> (nat \<Rightarrow> nat \<Rightarrow> pixel option) \<Rightarrow> pixel list option" where
  "per_pixel rows cols f = those (concat (map (\<lambda>y. map (\<lambda>x. f y x) [0..<cols]) [0..<rows]))"

section \<open>The filter and its settings\<close>

text \<open>
  The settings object of the host, by the values its getters return for the keys that
  \<^verbatim>\<open>background_filter_update\<close> reads. \<^verbatim>\<open>obs_data_get_int\<close> returns a 64-bit integer; the double that
  \<^verbatim>\<open>obs_data_get_double\<close> returns is given as the float it is converted to.
\<close>

record obs_data =
  get_threshold :: c_float
  get_blur_background :: bool
  get_blur_amount :: "64 word"
  get_replace_background :: bool
  get_replacement_color :: "64 word"
  get_smooth_edges :: bool
  get_edge_smoothing :: "64 word"

text \<open>\<^verbatim>\<open>background_filter_data\<close>, without the host's source handle and the mutex.\<close>

record background_filter_data =
  inference :: ModelInference
  threshold :: c_float
  blur_background :: bool
  blur_amount :: int
  replace_background :: bool
  replacement_color :: "32 word"
  smooth_edges :: bool
  edge_smoothing :: int
  width :: "32 word"
  height :: "32 word"
  last_process_time :: "64 word"
  model_loaded :: bool
  processing :: bool

definition background_filter_update ::
  "background_filter_data \<Rightarrow> obs_data \<Rightarrow> background_filter_data" where
  "background_filter_update data settings =
     (case validated_values (get_threshold settings) (to_int (get_blur_amount settings))
             (to_int (get_edge_smoothing settings)) of
        (threshold', blur_amount', edge_smoothing') \<Rightarrow>
          data\<lparr>threshold := threshold',
                 blur_background := get_blur_background settings,
                 blur_amount := blur_amount',
                 replace_background := get_replace_background settings,
                 replacement_color := ucast (get_replacement_color settings),
                 smooth_edges := get_smooth_edges settings,
                 edge_smoothing := edge_smoothing'\<rparr>)"

section \<open>Compositing\<close>

text \<open>
  The blurred copy of the input frame is the library's: \<open>blurred k img y x\<close> is the pixel at row
  \<open>y\<close> and column \<open>x\<close> of the result of \<^verbatim>\<open>cv::GaussianBlur\<close> with kernel size \<open>k\<close> on \<open>img\<close>.
\<close>

definition bg_color_of :: "32 word \<Rightarrow> pixel" where
  "bg_color_of c =
     (ucast (drop_bit 0 c AND 0xFF), ucast (drop_bit 8 c AND 0xFF), ucast (drop_bit 16 c AND 0xFF))"

text \<open>
  The body of both blending loops: the pixel of the frame times the mask value plus the
  background pixel times one minus the mask value. A read outside the frame or the mask has no
  value.
\<close>

definition blend_at :: "image \<Rightarrow> mat \<Rightarrow> (nat \<Rightarrow> nat \<Rightarrow> pixel) \<Rightarrow> nat \<Rightarrow> nat \<Rightarrow> pixel option" where
  "blend_at input_frame msk bg y x =
     (case (pixel_at input_frame y x, mask_at msk y x) of
        (Some p, Some alpha) \<Rightarrow> Some (blend p alpha (bg y x))
      | _ \<Rightarrow> None)"

text \<open>
  Lines 174 to 206 of \<^verbatim>\<open>background_filter_video\<close>: the output frame starts as a copy of the input
  frame; one of the two blends is applied to every pixel, or none. The blur of the frame
  throws when the kernel size is not positive.
\<close>

definition composite ::
  "(int \<Rightarrow> image \<Rightarrow> nat \<Rightarrow> nat \<Rightarrow> pixel) \<Rightarrow> background_filter_data \<Rightarrow> image \<Rightarrow> mat
     \<Rightarrow> image outcome" where
  "composite blurred data input_frame msk =
     (if replace_background data then
        (case per_pixel (i_rows input_frame) (i_cols input_frame)
                (blend_at input_frame msk (\<lambda>y x. bg_color_of (replacement_color data))) of
           None \<Rightarrow> Undefined
         | Some px \<Rightarrow> Done (input_frame\<lparr>i_data := px\<rparr>))
      else if blur_background data then
        (let kernel_size = blur_amount data * 2 + 1 in
         if kernel_size \<le> 0 then Failed
         else
           (case per_pixel (i_rows input_frame) (i_cols input_frame)
                   (blend_at input_frame msk (blurred kernel_size input_frame)) of
              None \<Rightarrow> Undefined
            | Some px \<Rightarrow> Done (input_frame\<lparr>i_data := px\<rparr>)))
      else Done input_frame)"

section \<open>The per-frame entry point\<close>

text \<open>The pixel formats of the host, and a frame: its size, its format and its first plane.\<close>

datatype video_format =
  VIDEO_FORMAT_NONE | VIDEO_FORMAT_I420 | VIDEO_FORMAT_NV12 | VIDEO_FORMAT_YVYU |
  VIDEO_FORMAT_YUY2 | VIDEO_FORMAT_UYVY | VIDEO_FORMAT_RGBA | VIDEO_FORMAT_BGRA |
  VIDEO_FORMAT_BGRX | VIDEO_FORMAT_Y800 | VIDEO_FORMAT_I444

record obs_source_frame =
  fr_width :: "32 word"
  fr_height :: "32 word"
  fr_format :: video_format
  fr_data :: "8 word list"

text \<open>
  The functions of the image library and of the inference runtime that the entry point
  calls: the colour conversions to and from the work format (\<open>None\<close> when they throw), the
  kernels of the resize and of the blur of the mask, the blur of the frame, and the run of
  the session.
\<close>

record library =
  cvt_to_bgr :: "video_format \<Rightarrow> 32 word \<Rightarrow> 32 word \<Rightarrow> 8 word list \<Rightarrow> image option"
  cvt_from_bgr :: "video_format \<Rightarrow> image \<Rightarrow> 8 word list option"
  resize_kernel :: kernel
  gauss_kernel :: "cv_size \<Rightarrow> kernel"
  blur_image :: "int \<Rightarrow> image \<Rightarrow> nat \<Rightarrow> nat \<Rightarrow> pixel"
  run_session :: "image \<Rightarrow> tensor option"

definition supported_format :: "video_format \<Rightarrow> bool" where
  "supported_format f \<longleftrightarrow>
     f = VIDEO_FORMAT_I420 \<or> f = VIDEO_FORMAT_NV12 \<or> f = VIDEO_FORMAT_RGBA"

text \<open>Lines 159 to 171: the mask of a frame, after the optional smoothing of its edges.\<close>

definition frame_mask :: "library \<Rightarrow> background_filter_data \<Rightarrow> image \<Rightarrow> mat outcome" where
  "frame_mask lib data input_frame =
     (case RunInference (run_session lib) (resize_kernel lib) (inference data) input_frame
             (threshold data) of
        Done msk \<Rightarrow>
          if smooth_edges data \<and> edge_smoothing data > 0
          then cv_GaussianBlur (gauss_kernel lib) msk
                 \<lparr>sz_width = edge_smoothing data * 2 + 1,
                  sz_height = edge_smoothing data * 2 + 1\<rparr>
          else Done msk
      | Failed \<Rightarrow> Failed
      | Undefined \<Rightarrow> Undefined)"

text \<open>
  \<^verbatim>\<open>background_filter_video\<close>, for calls that do not overlap. It returns the state of the filter
  and the frame; \<open>None\<close> when the behaviour is undefined. An exception inside the \<^verbatim>\<open>try\<close> block
  ends in its handler, after which the flag is reset and the frame returned as it is then.
\<close>

definition background_filter_video ::
  "library \<Rightarrow> background_filter_data \<Rightarrow> obs_source_frame
     \<Rightarrow> (background_filter_data \<times> obs_source_frame) option" where
  "background_filter_video lib data frame =
     (if \<not> model_loaded data \<or> processing data then Some (data, frame)
      else
        (let d1 = data\<lparr>processing := True\<rparr>;
             d2 = (if width d1 \<noteq> fr_width frame \<or> height d1 \<noteq> fr_height frame
                   then d1\<lparr>width := fr_width frame, height := fr_height frame\<rparr>
                   else d1);
             d3 = d2\<lparr>processing := False\<rparr>
         in if \<not> supported_format (fr_format frame) then Some (d3, frame)
            else
              (case cvt_to_bgr lib (fr_format frame) (fr_height frame) (fr_width frame)
                      (fr_data frame) of
                 None \<Rightarrow> Some (d3, frame)
               | Some input_frame \<Rightarrow>
                   (case frame_mask lib d2 input_frame of
                      Failed \<Rightarrow> Some (d3, frame)
                    | Undefined \<Rightarrow> None
                    | Done msk \<Rightarrow>
                        (case composite (blur_image lib) d2 input_frame msk of
                           Failed \<Rightarrow> Some (d3, frame)
                         | Undefined \<Rightarrow> None
                         | Done output_frame \<Rightarrow>
                             (case cvt_from_bgr lib (fr_format frame) output_frame of
                                None \<Rightarrow> Some (d3, frame)
                              | Some bytes \<Rightarrow>
                                  if length bytes > length (fr_data frame) then None
                                  else Some (d3, frame\<lparr>fr_data :=
                                          bytes @ drop (length bytes) (fr_data frame)\<rparr>)))))))"

text \<open>
  An inference that fails on a frame: the format is supported, the conversion gives a work
  image, and \<^verbatim>\<open>RunInference\<close> returns false on it.
\<close>

definition inference_fails :: "library \<Rightarrow> background_filter_data \<Rightarrow> obs_source_frame \<Rightarrow> bool" where
  "inference_fails lib data frame \<longleftrightarrow>
     supported_format (fr_format frame) \<and>
     (case cvt_to_bgr lib (fr_format frame) (fr_height frame) (fr_width frame) (fr_data frame) of
        None \<Rightarrow> False
      | Some input_frame \<Rightarrow>
          RunInference (run_session lib) (resize_kernel lib) (inference data) input_frame
            (threshold data) = Failed)"

section \<open>Concrete values of the pipeline\<close>

definition demo_filter :: background_filter_data where
  "demo_filter =
     \<lparr>inference = new_ModelInference\<lparr>mi_model_loaded := True, mi_session := demo_ort demo_model\<rparr>,
      threshold = Fin (3 / 10), blur_background = False, blur_amount = 15,
      replace_background = True, replacement_color = 0xFF00FF00, smooth_edges = True,
      edge_smoothing = 3, width = 0, height = 0, last_process_time = 0,
      model_loaded = True, processing = False\<rparr>"

definition demo_settings :: obs_data where
  "demo_settings =
     \<lparr>get_threshold = Fin (3 / 10), get_blur_background = False, get_blur_amount = 15,
      get_replace_background = True, get_replacement_color = 0xFF00FF00,
      get_smooth_edges = True, get_edge_smoothing = 3\<rparr>"

text \<open>A kernel that averages the first and the last sample of the source.\<close>

definition demo_kernel :: kernel where
  "demo_kernel s d p = [(0, 1 / 2), (fst s * snd s - 1, 1 / 2)]"

text \<open>A frame of three rows and three columns, and the library functions used on it.\<close>

definition demo_image :: image where
  "demo_image = \<lparr>i_rows = 3, i_cols = 3, i_data = replicate 9 (10, 20, 30)\<rparr>"

definition demo_library :: library where
  "demo_library =
     \<lparr>cvt_to_bgr = (\<lambda>f h w bytes. if length bytes < 36 then None else Some demo_image),
      cvt_from_bgr = (\<lambda>f img. Some (concat (map (\<lambda>(b, g, r). [r, g, b, 255]) (i_data img)))),
      resize_kernel = demo_kernel,
      gauss_kernel = (\<lambda>ksize. demo_kernel),
      blur_image = (\<lambda>k img y x. (1, 2, 3)),
      run_session = (\<lambda>img. Some \<lparr>t_shape = [1, 1, 2, 2], t_data = [0, 0, 0, 0]\<rparr>)\<rparr>"

definition demo_mask :: mat where
  "demo_mask =
     \<lparr>m_rows = 3, m_cols = 3,
      m_data = [1 / 2, 1 / 2, 1 / 2, 1 / 2, 1 / 2, 1 / 2, 1 / 2, 1 / 2, 1 / 2]\<rparr>"



text \<open>Two frames: a packed RGBA frame of three by three pixels, and a frame in another format.\<close>

definition demo_frame :: obs_source_frame where
  "demo_frame =
     \<lparr>fr_width = 3, fr_height = 3, fr_format = VIDEO_FORMAT_RGBA, fr_data = replicate 36 7\<rparr>"

definition demo_frame_bgra :: obs_source_frame where
  "demo_frame_bgra =
     \<lparr>fr_width = 640, fr_height = 480, fr_format = VIDEO_FORMAT_BGRA, fr_data = replicate 36 7\<rparr>"

section \<open>Properties of the security gate\<close>

lemma find_str_None_iff: "find_str s pat = None \<longleftrightarrow> \<not> sublist pat s"
  by (induction s) (auto simp: sublist_Cons_right)

lemma find_str_prefix: "prefix pat s \<Longrightarrow> find_str s pat = Some 0"
  by (cases s) auto

lemma path_string_dotdot_head: "prefix ''..'' (path_string (''..'' # rest))"
  by (cases rest) auto

lemma mismatch_split:
  "mismatch p b = (a, r) \<Longrightarrow> \<exists>c. p = c @ a \<and> b = c @ r \<and> (a = [] \<or> r = [] \<or> hd a \<noteq> hd r)"
proof (induction p b rule: mismatch.induct)
  case (1 x xs y ys)
  show ?case
  proof (cases "x = y")
    case True
    with 1 obtain c where "xs = c @ a" "ys = c @ r" "a = [] \<or> r = [] \<or> hd a \<noteq> hd r"
      by auto
    then have "x # xs = (x # c) @ a \<and> y # ys = (x # c) @ r" using True by simp
    then show ?thesis using \<open>a = [] \<or> r = [] \<or> hd a \<noteq> hd r\<close> by blast
  next
    case False
    with 1 show ?thesis by auto
  qed
qed auto

lemma mismatch_prefix: "mismatch p b = (a, r) \<Longrightarrow> (r = [] \<longleftrightarrow> prefix b p)"
  by (induction p b arbitrary: a r rule: mismatch.induct) (auto split: if_splits)

lemma mismatch_of_prefix: "prefix b p \<Longrightarrow> mismatch p b = (drop (length b) p, [])"
  by (induction p b rule: mismatch.induct) (auto)

lemma mismatch_set: "mismatch p b = (a, r) \<Longrightarrow> set r \<subseteq> set b"
  by (induction p b arbitrary: a r rule: mismatch.induct) (auto split: if_splits)

lemma filter_names_canonical:
  "canonical r \<Longrightarrow> filter (\<lambda>e. e \<noteq> ''.'' \<and> e \<noteq> ''..'' \<and> e \<noteq> []) r = r"
  by (induction r) (auto simp: canonical_def)

lemma filter_dotdot_canonical:
  "canonical r \<Longrightarrow> filter (\<lambda>e. e = ''..'') r = []"
  by (induction r) (auto simp: canonical_def)

lemma canonical_mismatch: "canonical b \<Longrightarrow> mismatch p b = (a, r) \<Longrightarrow> canonical r"
  using mismatch_set [of p b a r] by (auto simp: canonical_def list_all_iff)

lemma lexically_relative_outside:
  assumes "canonical b" and "\<not> prefix b p"
  shows "\<exists>rest. lexically_relative p b = ''..'' # rest"
proof -
  obtain a r where m: "mismatch p b = (a, r)" by (cases "mismatch p b")
  from m assms(2) have r: "r \<noteq> []" by (simp add: mismatch_prefix)
  from assms(1) m have c: "canonical r" by (rule canonical_mismatch)
  from r obtain k where k: "length r = Suc k" by (cases r) auto
  have "lexically_relative p b = replicate (length r) ''..'' @ a"
    using m r c by (simp add: lexically_relative_def filter_names_canonical filter_dotdot_canonical)
  then show ?thesis using k by simp
qed

lemma lexically_relative_inside:
  assumes "prefix b p"
  shows "lexically_relative p b = [''.''] \<or>
         (lexically_relative p b = drop (length b) p \<and> drop (length b) p \<noteq> [])"
  using assms by (auto simp: lexically_relative_def mismatch_of_prefix Let_def)

lemma rel_rejected:
  assumes "canonical b" and "\<not> prefix b p"
  shows "find_str (path_string (lexically_relative p b)) ''..'' \<noteq> None"
proof -
  from assms obtain rest where "lexically_relative p b = ''..'' # rest"
    using lexically_relative_outside by blast
  then have "prefix ''..'' (path_string (lexically_relative p b))"
    using path_string_dotdot_head by simp
  then show ?thesis by (simp add: find_str_prefix)
qed

lemma rel_accepted:
  assumes "prefix b p" and "find_str (path_string (drop (length b) p)) ''..'' = None"
  shows "lexically_relative p b \<noteq> [] \<and> find_str (path_string (lexically_relative p b)) ''..'' = None"
  using lexically_relative_inside [OF assms(1)] assms(2) by auto

lemma unat_max_size: "unat max_size = 500 * 1024 * 1024"
  by (simp add: max_size_def)

lemma check_bases_outside:
  "canonical_bases env allowed \<Longrightarrow>
   \<forall>base\<in>set allowed. \<forall>b. fs_resolve env base = Some b \<longrightarrow> \<not> prefix b p \<Longrightarrow>
   fst (check_bases env p allowed) = False"
proof (induction allowed)
  case Nil
  then show ?case by simp
next
  case (Cons base rest)
  show ?case
  proof (cases "fs_resolve env base")
    case None
    then show ?thesis by simp
  next
    case (Some b)
    with Cons.prems have "canonical b" "\<not> prefix b p"
      by (auto simp: canonical_bases_def)
    then have "find_str (path_string (lexically_relative p b)) ''..'' \<noteq> None"
      by (rule rel_rejected)
    moreover have "fst (check_bases env p rest) = False"
      using Cons by (simp add: canonical_bases_def)
    ultimately show ?thesis using Some by (auto simp: Let_def split: prod.splits)
  qed
qed

lemma check_bases_inside:
  "\<forall>base\<in>set allowed. fs_resolve env base \<noteq> None \<Longrightarrow>
   \<exists>base\<in>set allowed. \<exists>b. fs_resolve env base = Some b \<and> prefix b p \<and>
      find_str (path_string (drop (length b) p)) ''..'' = None \<Longrightarrow>
   fst (check_bases env p allowed) = True"
proof (induction allowed)
  case Nil
  then show ?case by simp
next
  case (Cons base rest)
  from Cons.prems(1) obtain b where b: "fs_resolve env base = Some b" by auto
  let ?rel = "lexically_relative p b"
  show ?case
  proof (cases "?rel \<noteq> [] \<and> find_str (path_string ?rel) ''..'' = None")
    case True
    then show ?thesis using b by (simp add: Let_def)
  next
    case False
    then have "\<not> (prefix b p \<and> find_str (path_string (drop (length b) p)) ''..'' = None)"
      using rel_accepted [of b p] by blast
    with Cons.prems(2) b have "\<exists>base\<in>set rest. \<exists>b. fs_resolve env base = Some b \<and> prefix b p \<and>
      find_str (path_string (drop (length b) p)) ''..'' = None"
      by auto
    with Cons have "fst (check_bases env p rest) = True" by simp
    then show ?thesis using b False by (auto simp: Let_def split: prod.splits)
  qed
qed

lemma ValidatePath_outside:
  assumes "canonical_bases env allowed"
    and "\<forall>base\<in>set allowed. \<not> resolves_inside env filepath base"
  shows "fst (ValidatePath env filepath allowed) = False"
proof (cases "fs_resolve env filepath")
  case None
  then show ?thesis by (simp add: ValidatePath_def)
next
  case (Some p)
  with assms(2) have "\<forall>base\<in>set allowed. \<forall>b. fs_resolve env base = Some b \<longrightarrow> \<not> prefix b p"
    by (auto simp: resolves_inside_def)
  with assms(1) have "fst (check_bases env p allowed) = False"
    by (rule check_bases_outside)
  then show ?thesis using Some by (auto simp: ValidatePath_def split: prod.splits)
qed

lemma ValidatePath_inside:
  assumes "find_str filepath ''..'' = None"
    and "\<forall>base\<in>set allowed. fs_resolve env base \<noteq> None"
    and "\<exists>base\<in>set allowed. inside_without_dotdot env filepath base"
  shows "fst (ValidatePath env filepath allowed) = True"
proof -
  from assms(3) obtain p where p: "fs_resolve env filepath = Some p"
    by (auto simp: inside_without_dotdot_def split: option.splits)
  with assms(3) have "\<exists>base\<in>set allowed. \<exists>b. fs_resolve env base = Some b \<and> prefix b p \<and>
      find_str (path_string (drop (length b) p)) ''..'' = None"
    by (auto simp: inside_without_dotdot_def split: option.splits)
  with assms(2) have "fst (check_bases env p allowed) = True"
    by (rule check_bases_inside)
  then show ?thesis using p assms(1) by (auto simp: ValidatePath_def split: prod.splits)
qed

lemma VerifyFileChecksum_matches:
  "hash_matches env p h \<Longrightarrow> fst (VerifyFileChecksum env p h) = True"
  by (cases "h = []")
     (auto simp: hash_matches_def VerifyFileChecksum_def split: prod.splits dest: map_eq_imp_length_eq)

lemma VerifyModelIntegrity_passes:
  assumes "passes_file_checks env p" and "hash_matches env p h"
  shows "fst (VerifyModelIntegrity env p h) = Some True"
proof -
  from assms(1) obtain sz where sz: "fs_file_size env p = Some sz" "unat sz \<le> 500 * 1024 * 1024"
    by (auto simp: passes_file_checks_def split: option.splits)
  then have "\<not> sz > max_size"
    by (simp add: word_less_nat_alt unat_max_size)
  moreover have "fst (VerifyFileChecksum env p h) = True"
    using assms(2) by (rule VerifyFileChecksum_matches)
  ultimately show ?thesis using assms(1) sz
    by (auto simp: VerifyModelIntegrity_def passes_file_checks_def split: prod.splits)
qed

text \<open>
  Claim C1, amended. When every allowed base directory resolves to a canonical path (names
  only) and the path resolves inside none of them, \<^verbatim>\<open>authorize\<close> returns Rejected. When the path
  string contains no \<^verbatim>\<open>..\<close>, every allowed base directory resolves without error, the path
  resolves inside one of them with no \<^verbatim>\<open>..\<close> in the relative path, the file passes the
  existence, regular-file and size checks and the optional hash matches, \<^verbatim>\<open>authorize\<close> returns
  Authorized.
\<close>

theorem authorize_allow_list:
  "(canonical_bases env allowed \<and> (\<forall>base\<in>set allowed. \<not> resolves_inside env filepath base)
      \<longrightarrow> fst (authorize env filepath allowed h) = Rejected) \<and>
   (find_str filepath ''..'' = None \<and> (\<forall>base\<in>set allowed. fs_resolve env base \<noteq> None) \<and>
    (\<exists>base\<in>set allowed. inside_without_dotdot env filepath base) \<and>
    passes_file_checks env filepath \<and> hash_matches env filepath h
      \<longrightarrow> fst (authorize env filepath allowed h) = Authorized)"
proof (intro conjI impI)
  assume "canonical_bases env allowed \<and> (\<forall>base\<in>set allowed. \<not> resolves_inside env filepath base)"
  then have "fst (ValidatePath env filepath allowed) = False"
    using ValidatePath_outside by blast
  then show "fst (authorize env filepath allowed h) = Rejected"
    by (auto simp: authorize_def split: prod.splits)
next
  assume a: "find_str filepath ''..'' = None \<and> (\<forall>base\<in>set allowed. fs_resolve env base \<noteq> None) \<and>
    (\<exists>base\<in>set allowed. inside_without_dotdot env filepath base) \<and>
    passes_file_checks env filepath \<and> hash_matches env filepath h"
  then have "fst (ValidatePath env filepath allowed) = True"
    using ValidatePath_inside by blast
  moreover have "fst (VerifyModelIntegrity env filepath h) = Some True"
    using a VerifyModelIntegrity_passes by blast
  ultimately show "fst (authorize env filepath allowed h) = Authorized"
    by (auto simp: authorize_def split: prod.splits)
qed

lemma demo_digest:
  "fst (CalculateFileSHA256 demo_fs p) = ''abababababababababababababababababababababababababababababababab''"
  by (simp add: CalculateFileSHA256_def demo_fs_def hex_byte_def hex_digit_def upt_rec)

lemma demo_hash_matches: "hash_matches demo_fs p demo_hash"
proof -
  have "map to_lower demo_hash = ''abababababababababababababababababababababababababababababababab''"
    by code_simp
  moreover have "map to_lower ''abababababababababababababababababababababababababababababababab''
      = ''abababababababababababababababababababababababababababababababab''"
    by code_simp
  ultimately show ?thesis by (simp add: hash_matches_def demo_digest)
qed

text \<open>The allow-list property of claim C1 at two paths of the concrete filesystem.\<close>

theorem authorize_allow_list_witness:
  "canonical_bases demo_fs [''/models''] \<and>
   \<not> resolves_inside demo_fs ''/tmp/evil.onnx'' ''/models'' \<and>
   fst (authorize demo_fs ''/tmp/evil.onnx'' [''/models''] []) = Rejected \<and>
   inside_without_dotdot demo_fs ''/models/u2net.onnx'' ''/models'' \<and>
   passes_file_checks demo_fs ''/models/u2net.onnx'' \<and>
   hash_matches demo_fs ''/models/u2net.onnx'' demo_hash \<and>
   fst (authorize demo_fs ''/models/u2net.onnx'' [''/models''] demo_hash) = Authorized"
proof -
  have c: "canonical_bases demo_fs [''/models'']"
    by (simp add: canonical_bases_def canonical_def demo_fs_def)
  have o: "\<not> resolves_inside demo_fs ''/tmp/evil.onnx'' ''/models''"
    by (simp add: resolves_inside_def demo_fs_def)
  have i: "inside_without_dotdot demo_fs ''/models/u2net.onnx'' ''/models''"
    by (simp add: inside_without_dotdot_def demo_fs_def)
  have f: "passes_file_checks demo_fs ''/models/u2net.onnx''"
    by (simp add: passes_file_checks_def demo_fs_def)
  have h: "hash_matches demo_fs ''/models/u2net.onnx'' demo_hash"
    by (rule demo_hash_matches)
  have n: "find_str ''/models/u2net.onnx'' ''..'' = None"
    by simp
  have r: "\<forall>base\<in>set [''/models'']. fs_resolve demo_fs base \<noteq> None"
    by (simp add: demo_fs_def)
  have "fst (authorize demo_fs ''/tmp/evil.onnx'' [''/models''] []) = Rejected"
    using authorize_allow_list [of demo_fs "[''/models'']" "''/tmp/evil.onnx''" "[]"] c o
    by simp
  moreover have "fst (authorize demo_fs ''/models/u2net.onnx'' [''/models''] demo_hash) = Authorized"
    using authorize_allow_list [of demo_fs "[''/models'']" "''/models/u2net.onnx''" demo_hash]
      n r i f h by simp
  ultimately show ?thesis using c o i f h by simp
qed

text \<open>
  Claim C1 as stated fails: a file inside an allowed directory whose name contains two
  consecutive dots passes every file check and is still rejected.
\<close>

theorem authorize_inside_counterexample:
  "resolves_inside demo_fs ''/models/net..onnx'' ''/models'' \<and>
   passes_file_checks demo_fs ''/models/net..onnx'' \<and>
   hash_matches demo_fs ''/models/net..onnx'' [] \<and>
   fst (authorize demo_fs ''/models/net..onnx'' [''/models''] []) = Rejected"
  by (simp add: resolves_inside_def passes_file_checks_def hash_matches_def authorize_def
      ValidatePath_def demo_fs_def)

text \<open>
  Claim C2: for every path whose string contains \<^verbatim>\<open>..\<close>, every filesystem and every allow-list,
  \<^verbatim>\<open>ValidatePath\<close> returns false, and it does so before any path is resolved for the containment
  check: the trace of filesystem queries is empty.
\<close>

theorem ValidatePath_traversal:
  "sublist ''..'' filepath \<Longrightarrow> ValidatePath env filepath allowed = (False, [])"
  by (simp add: ValidatePath_def find_str_None_iff)

text \<open>Claim C2 at a path that the containment check alone would accept.\<close>

theorem ValidatePath_traversal_witness:
  "sublist ''..'' ''/models/../models/u2net.onnx'' \<and>
   resolves_inside (demo_fs\<lparr>fs_resolve := (\<lambda>s. Some [''models''])\<rparr>)
     ''/models/../models/u2net.onnx'' ''/models'' \<and>
   ValidatePath (demo_fs\<lparr>fs_resolve := (\<lambda>s. Some [''models''])\<rparr>)
     ''/models/../models/u2net.onnx'' [''/models''] = (False, [])"
proof -
  have s: "sublist ''..'' ''/models/../models/u2net.onnx''"
    by (simp add: sublist_Cons_right)
  show ?thesis
    using s ValidatePath_traversal [OF s] by (simp add: resolves_inside_def)
qed

text \<open>
  Claim C3: for a model file larger than 500 MiB, \<^verbatim>\<open>VerifyModelIntegrity\<close> never returns true,
  whatever the expected hash is, and the file is never opened for hashing; when the file exists
  and is regular it returns false right after the size query.
\<close>

theorem VerifyModelIntegrity_size_cap:
  "fs_file_size env model_path = Some sz \<Longrightarrow> 500 * 1024 * 1024 < unat sz \<Longrightarrow>
   fst (VerifyModelIntegrity env model_path expected_hash) \<noteq> Some True \<and>
   (\<forall>q. HashFile q \<notin> set (snd (VerifyModelIntegrity env model_path expected_hash))) \<and>
   (fs_exists env model_path = Some True \<and> fs_is_regular_file env model_path = Some True \<longrightarrow>
      VerifyModelIntegrity env model_path expected_hash =
        (Some False, [Exists model_path, IsRegularFile model_path, FileSize model_path]))"
proof -
  assume sz: "fs_file_size env model_path = Some sz" and big: "500 * 1024 * 1024 < unat sz"
  from big have "sz > max_size"
    by (simp add: word_less_nat_alt unat_max_size)
  with sz show ?thesis
    by (auto simp: VerifyModelIntegrity_def split: option.splits bool.splits)
qed

text \<open>Claim C3 at a file of 600 MiB whose digest matches the expected hash.\<close>

theorem VerifyModelIntegrity_size_cap_witness:
  "fs_file_size demo_fs ''/models/huge.onnx'' = Some (600 * 1024 * 1024) \<and>
   hash_matches demo_fs ''/models/huge.onnx'' demo_hash \<and>
   VerifyModelIntegrity demo_fs ''/models/huge.onnx'' demo_hash =
     (Some False, [Exists ''/models/huge.onnx'', IsRegularFile ''/models/huge.onnx'',
                   FileSize ''/models/huge.onnx''])"
proof -
  have s: "fs_file_size demo_fs ''/models/huge.onnx'' = Some (600 * 1024 * 1024)"
    by (simp add: demo_fs_def)
  have b: "500 * 1024 * 1024 < unat (600 * 1024 * 1024 :: 64 word)"
    by simp
  have e: "fs_exists demo_fs ''/models/huge.onnx'' = Some True \<and>
           fs_is_regular_file demo_fs ''/models/huge.onnx'' = Some True"
    by (simp add: demo_fs_def)
  show ?thesis
    using VerifyModelIntegrity_size_cap [OF s b, of demo_hash] s e demo_hash_matches by simp
qed

















section \<open>Properties of the configuration\<close>

lemma flt_less_Fin_right: "flt_less t (Fin y) \<longleftrightarrow> (case t of Fin x \<Rightarrow> x < y | NInf \<Rightarrow> True | _ \<Rightarrow> False)"
  by (cases t) auto

lemma flt_less_Fin_left: "flt_less (Fin x) t \<longleftrightarrow> (case t of Fin y \<Rightarrow> x < y | PInf \<Rightarrow> True | _ \<Rightarrow> False)"
  by (cases t) auto

lemma ValidateConfigValues_iff:
  "t \<noteq> NaN \<Longrightarrow>
   ValidateConfigValues t b s \<longleftrightarrow> in_range 0 1 t \<and> 1 \<le> b \<and> b \<le> 50 \<and> 1 \<le> s \<and> s \<le> 10"
  by (cases t)
     (auto simp: ValidateConfigValues_def flt_greater_def in_range_def)

lemma ValidateConfigValues_NaN:
  "ValidateConfigValues NaN b s \<longleftrightarrow> 1 \<le> b \<and> b \<le> 50 \<and> 1 \<le> s \<and> s \<le> 10"
  by (auto simp: ValidateConfigValues_def flt_greater_def)

lemma background_filter_update_defaults:
  assumes "\<not> ValidateConfigValues (get_threshold settings) (to_int (get_blur_amount settings))
              (to_int (get_edge_smoothing settings))"
  shows "background_filter_update data settings =
     data\<lparr>threshold := Fin (1 / 2),
          blur_background := get_blur_background settings,
          blur_amount := 15,
          replace_background := get_replace_background settings,
          replacement_color := ucast (get_replacement_color settings),
          smooth_edges := get_smooth_edges settings,
          edge_smoothing := 3\<rparr>"
  using assms by (simp add: background_filter_update_def validated_values_def)

lemma to_int_small [simp]: "to_int 15 = 15" "to_int 3 = 3"
  by (simp_all add: to_int_def)

text \<open>
  After every update the blur amount and the edge smoothing are in their ranges, and so is
  the threshold unless the setting is a NaN.
\<close>

lemma validated_values_ints:
  "validated_values t b s = (t', b', s') \<Longrightarrow> 1 \<le> b' \<and> b' \<le> 50 \<and> 1 \<le> s' \<and> s' \<le> 10"
  by (auto simp: validated_values_def ValidateConfigValues_def split: if_splits)

lemma background_filter_update_ints:
  "1 \<le> blur_amount (background_filter_update data settings) \<and>
   blur_amount (background_filter_update data settings) \<le> 50 \<and>
   1 \<le> edge_smoothing (background_filter_update data settings) \<and>
   edge_smoothing (background_filter_update data settings) \<le> 10"
proof -
  obtain t' b' s' where v: "validated_values (get_threshold settings)
      (to_int (get_blur_amount settings)) (to_int (get_edge_smoothing settings)) = (t', b', s')"
    by (metis prod_cases3)
  from validated_values_ints [OF v] show ?thesis
    by (simp add: background_filter_update_def v)
qed

lemma background_filter_update_threshold:
  "get_threshold settings \<noteq> NaN \<Longrightarrow>
   in_range 0 1 (threshold (background_filter_update data settings))"
proof -
  assume n: "get_threshold settings \<noteq> NaN"
  show ?thesis
  proof (cases "ValidateConfigValues (get_threshold settings) (to_int (get_blur_amount settings))
      (to_int (get_edge_smoothing settings))")
    case True
    with n show ?thesis
      by (simp add: background_filter_update_def validated_values_def ValidateConfigValues_iff)
  next
    case False
    then show ?thesis
      by (simp add: background_filter_update_def validated_values_def in_range_def)
  qed
qed

text \<open>
  Claim C4 fails at a NaN threshold: both comparisons of the threshold are false, the
  validation accepts it together with a valid blur amount and edge smoothing although it is
  not a value between 0 and 1, and the update stores it instead of the default.
\<close>

theorem ValidateConfigValues_NaN_threshold:
  "ValidateConfigValues NaN 15 3 \<and> \<not> in_range 0 1 NaN \<and>
   threshold (background_filter_update demo_filter (demo_settings\<lparr>get_threshold := NaN\<rparr>)) = NaN"
  by (simp add: ValidateConfigValues_def flt_greater_def in_range_def background_filter_update_def
      validated_values_def demo_settings_def)

section \<open>Properties of the mask\<close>

lemma exp_two_le: "exp (t::real) \<le> 9" if "\<bar>t\<bar> \<le> 2"
proof -
  have "exp t \<le> exp 2" using that by simp
  also have "exp (2::real) = exp 1 * exp 1" by (simp flip: exp_add)
  also have "\<dots> \<le> 3 * 3" by (intro mult_mono exp_le) simp_all
  finally show ?thesis by simp
qed

lemma sum14: "(\<Sum>m<14. (- 2 :: real) ^ m / fact m) = 117569 / 868725"
  by (simp add: eval_nat_numeral lessThan_Suc fact_numeral)

lemma exp_neg2_bounds: "13533 / 100000 < exp (- 2 :: real)" "exp (- 2 :: real) < 13534 / 100000"
proof -
  obtain t :: real where t: "\<bar>t\<bar> \<le> \<bar>- 2 :: real\<bar>"
    and e: "exp (- 2 :: real) = (\<Sum>m<14. (- 2) ^ m / fact m) + exp t / fact 14 * (- 2) ^ 14"
    using Maclaurin_exp_le [of "- 2 :: real" 14] by blast
  have f: "(fact 14 :: real) = 87178291200" by (simp add: fact_numeral)
  have r: "exp t / fact 14 * (- 2 :: real) ^ 14 = exp t * (16384 / 87178291200)"
    by (simp add: f)
  define rest where "rest = exp t * (16384 / 87178291200)"
  have p: "0 < rest" by (simp add: rest_def)
  have "exp t \<le> 9" using t by (intro exp_two_le) simp
  then have u: "rest \<le> 9 * (16384 / 87178291200)"
    unfolding rest_def by (intro mult_right_mono) simp_all
  from e have val: "exp (- 2 :: real) = 117569 / 868725 + rest"
    by (simp only: sum14 r rest_def)
  show "13533 / 100000 < exp (- 2 :: real)" using p unfolding val by simp
  show "exp (- 2 :: real) < 13534 / 100000" using u unfolding val by simp
qed



lemma sigmoid_2: "\<bar>sigmoid 2 - 8808 / 10000\<bar> < 1 / 10000"
proof -
  have l: "13533 / 100000 < exp (- 2 :: real)" and u: "exp (- 2 :: real) < 13534 / 100000"
    by (rule exp_neg2_bounds)+
  define s where "s = 1 / (1 + exp (- 2 :: real))"
  have "s < 1 / (1 + 13533 / 100000)"
    unfolding s_def using l by (intro divide_strict_left_mono) (simp_all add: add_pos_pos)
  then have a: "s < 8809 / 10000" by simp
  have "1 / (1 + 13534 / 100000) < s"
    unfolding s_def using u by (intro divide_strict_left_mono) (simp_all add: add_pos_pos)
  then have b: "8807 / 10000 < s" by simp
  have "\<bar>s - 8808 / 10000\<bar> < 1 / 10000" using a b by linarith
  then show ?thesis by (simp add: sigmoid_def s_def)
qed

lemma sigmoid_neg: "sigmoid (- x) = 1 - sigmoid x"
proof -
  have a: "1 + exp x \<noteq> 0" "1 + exp (- x) \<noteq> 0"
    by (simp_all add: add_pos_pos less_imp_neq [THEN not_sym])
  have "sigmoid (- x) + sigmoid x = 1"
    using a by (simp add: sigmoid_def exp_minus field_simps)
  then show ?thesis by simp
qed

lemma threshold_step_twice: "threshold_step t (threshold_step t v) = threshold_step t v"
  by (simp add: threshold_step_def)


lemma mask_values_nth:
  "i < n \<Longrightarrow> n \<le> length output_data \<Longrightarrow>
   mask_values t output_data n ! i = threshold_step t (sigmoid (output_data ! i))"
  by (simp add: mask_values_def)



subsection \<open>The sigmoid and the threshold in single precision\<close>

lemma nearest_even_cases: "nearest_even v = \<lfloor>v\<rfloor> \<or> nearest_even v = \<lfloor>v\<rfloor> + 1"
  by (simp add: nearest_even_def Let_def)

lemma nearest_even_lower: "of_int n \<le> v \<Longrightarrow> n \<le> nearest_even v"
proof -
  assume "of_int n \<le> v"
  then have "n \<le> \<lfloor>v\<rfloor>" by (simp add: le_floor_iff)
  then show ?thesis using nearest_even_cases [of v] by auto
qed

lemma nearest_even_upper: "v \<le> of_int n \<Longrightarrow> nearest_even v \<le> n"
proof (cases "v = of_int n")
  case True
  then show ?thesis by (simp add: nearest_even_def)
next
  case False
  assume "v \<le> of_int n"
  with False have "v < of_int n" by simp
  then have "\<lfloor>v\<rfloor> < n" by (simp add: floor_less_iff)
  then show ?thesis using nearest_even_cases [of v] by auto
qed

lemma nearest_even_error: "\<bar>of_int (nearest_even v) - v\<bar> \<le> 1 / 2"
proof -
  have "of_int \<lfloor>v\<rfloor> \<le> v" "v < of_int \<lfloor>v\<rfloor> + 1" by linarith+
  then show ?thesis
    by (auto simp: nearest_even_def Let_def abs_le_iff)
qed

lemma nearest_even_near: "0 \<le> d \<Longrightarrow> d < 1 / 2 \<Longrightarrow> nearest_even (of_int n + d) = n"
proof -
  assume d: "0 \<le> d" "d < 1 / 2"
  then have "\<lfloor>of_int n + d\<rfloor> = n" by (simp add: floor_eq_iff)
  then show ?thesis using d by (simp add: nearest_even_def)
qed

lemma ulp32_pos: "0 < ulp32 x"
  by (simp add: ulp32_def)

lemma round32_error:
  assumes "round32 x = Fin r"
  shows "\<bar>r - x\<bar> \<le> ulp32 x / 2"
proof (cases "x = 0")
  case True
  with assms show ?thesis using ulp32_pos [of x] by (simp add: round32_def)
next
  case False
  with assms have r: "r = of_int (nearest_even (x / ulp32 x)) * ulp32 x"
    by (auto simp: round32_def Let_def split: if_splits)
  have "\<bar>of_int (nearest_even (x / ulp32 x)) - x / ulp32 x\<bar> * ulp32 x \<le> 1 / 2 * ulp32 x"
    using nearest_even_error [of "x / ulp32 x"] ulp32_pos [of x]
    by (intro mult_right_mono) simp_all
  moreover have "\<bar>of_int (nearest_even (x / ulp32 x)) - x / ulp32 x\<bar> * ulp32 x = \<bar>r - x\<bar>"
  proof -
    define a :: real where "a = of_int (nearest_even (x / ulp32 x))"
    define q where "q = ulp32 x"
    have q: "0 < q" unfolding q_def by (rule ulp32_pos)
    then have "(a - x / q) * q = a * q - x" by (simp add: field_simps)
    then have "\<bar>a - x / q\<bar> * \<bar>q\<bar> = \<bar>a * q - x\<bar>" by (simp flip: abs_mult)
    then show ?thesis using q by (simp add: a_def q_def r)
  qed
  ultimately show ?thesis by simp
qed

lemma floor_log2_bounds:
  assumes "x \<noteq> 0"
  shows "2 powr of_int \<lfloor>log 2 \<bar>x\<bar>\<rfloor> \<le> \<bar>x\<bar>" and "\<bar>x\<bar> < 2 powr (of_int \<lfloor>log 2 \<bar>x\<bar>\<rfloor> + 1)"
  using floor_log_eq_powr_iff [of "\<bar>x\<bar>" 2 "\<lfloor>log 2 \<bar>x\<bar>\<rfloor>"] assms by simp_all

lemma exponent32_le:
  assumes "x \<noteq> 0" and "\<bar>x\<bar> \<le> 2 powr of_int K" and "- 126 \<le> K"
  shows "exponent32 x \<le> K"
proof -
  have "(2::real) powr of_int \<lfloor>log 2 \<bar>x\<bar>\<rfloor> \<le> 2 powr of_int K"
    using floor_log2_bounds(1) [OF assms(1)] assms(2) by linarith
  then have "\<lfloor>log 2 \<bar>x\<bar>\<rfloor> \<le> K" by simp
  with assms(3) show ?thesis by (simp add: exponent32_def)
qed

lemma floor_log2_ge:
  assumes "2 powr of_int K \<le> \<bar>x\<bar>"
  shows "K \<le> \<lfloor>log 2 \<bar>x\<bar>\<rfloor>"
proof -
  have "x \<noteq> 0" using assms powr_gt_zero [of 2 "of_int K"] by auto
  then have "(2::real) powr of_int K < 2 powr (of_int \<lfloor>log 2 \<bar>x\<bar>\<rfloor> + 1)"
    using floor_log2_bounds(2) [of x] assms by linarith
  then have "of_int K < (of_int \<lfloor>log 2 \<bar>x\<bar>\<rfloor> + 1 :: real)" by simp
  then show ?thesis by linarith
qed

lemma exponent32_ge:
  assumes "2 powr of_int K \<le> \<bar>x\<bar>"
  shows "K \<le> exponent32 x"
  using floor_log2_ge [OF assms] by (simp add: exponent32_def)

lemma exponent32_binade:
  assumes "2 powr of_int K \<le> \<bar>x\<bar>" and "\<bar>x\<bar> < 2 powr (of_int K + 1)" and "- 126 \<le> K"
  shows "exponent32 x = K"
proof -
  have "x \<noteq> 0" using assms(1) powr_gt_zero [of 2 "of_int K"] by auto
  then have "\<lfloor>log 2 \<bar>x\<bar>\<rfloor> = K"
    using floor_log_eq_powr_iff [of "\<bar>x\<bar>" 2 K] assms(1,2) by simp
  with assms(3) show ?thesis by (simp add: exponent32_def)
qed

lemma exponent32_normal:
  assumes "2 powr of_int K \<le> \<bar>x\<bar>" and "- 126 \<le> K"
  shows "2 powr of_int (exponent32 x) \<le> \<bar>x\<bar>"
proof -
  have x: "x \<noteq> 0" using assms(1) powr_gt_zero [of 2 "of_int K"] by auto
  have "K \<le> \<lfloor>log 2 \<bar>x\<bar>\<rfloor>" using assms(1) by (rule floor_log2_ge)
  with assms(2) have "exponent32 x = \<lfloor>log 2 \<bar>x\<bar>\<rfloor>" by (simp add: exponent32_def)
  then show ?thesis using floor_log2_bounds(1) [OF x] by simp
qed

lemma powr_over_ulp32:
  assumes "exponent32 x \<le> K + 23"
  shows "2 powr of_int K / ulp32 x = of_int (2 ^ nat (K - exponent32 x + 23))"
proof -
  have "2 powr of_int K / ulp32 x = 2 powr (of_int K - of_int (exponent32 x - 23))"
    by (simp add: ulp32_def powr_diff)
  also have "of_int K - of_int (exponent32 x - 23) = (of_nat (nat (K - exponent32 x + 23)) :: real)"
    using assms by simp
  also have "2 powr (of_nat (nat (K - exponent32 x + 23)) :: real) = 2 ^ nat (K - exponent32 x + 23)"
    by (simp add: powr_realpow)
  finally show ?thesis by simp
qed

text \<open>The rounded value before the test for overflow.\<close>

lemma scaled_error:
  "\<bar>of_int (nearest_even (x / ulp32 x)) * ulp32 x - x\<bar> \<le> ulp32 x / 2"
proof -
  define a :: real where "a = of_int (nearest_even (x / ulp32 x))"
  define q where "q = ulp32 x"
  have q: "0 < q" unfolding q_def by (rule ulp32_pos)
  then have "(a - x / q) * q = a * q - x" by (simp add: field_simps)
  then have "\<bar>a - x / q\<bar> * \<bar>q\<bar> = \<bar>a * q - x\<bar>" by (simp flip: abs_mult)
  moreover have "\<bar>a - x / q\<bar> * q \<le> 1 / 2 * q"
    unfolding a_def q_def using nearest_even_error [of "x / ulp32 x"] ulp32_pos [of x]
    by (intro mult_right_mono) simp_all
  ultimately show ?thesis using q by (simp add: a_def q_def)
qed

lemma round32_cases:
  assumes "x \<noteq> 0"
  shows "round32 x =
     (if \<bar>of_int (nearest_even (x / ulp32 x)) * ulp32 x\<bar> \<ge> 2 ^ 128
      then (if 0 < x then PInf else NInf)
      else Fin (of_int (nearest_even (x / ulp32 x)) * ulp32 x))"
  using assms by (simp add: round32_def Let_def)

lemma round32_nonneg:
  assumes "0 \<le> x"
  shows "round32 x = PInf \<or> (\<exists>r. round32 x = Fin r \<and> 0 \<le> r)"
proof (cases "x = 0")
  case True
  then show ?thesis by (simp add: round32_def)
next
  case False
  have "0 \<le> x / ulp32 x" using assms ulp32_pos [of x] by simp
  then have "0 \<le> nearest_even (x / ulp32 x)"
    using nearest_even_lower [of 0 "x / ulp32 x"] by simp
  then have "0 \<le> of_int (nearest_even (x / ulp32 x)) * ulp32 x"
    using ulp32_pos [of x] by simp
  with False assms show ?thesis by (auto simp: round32_cases)
qed

lemma round32_upper:
  assumes "0 < x" and "x \<le> 2 powr of_int K" and "- 126 \<le> K" and "K \<le> 127"
  shows "\<exists>r. round32 x = Fin r \<and> 0 \<le> r \<and> r \<le> 2 powr of_int K"
proof -
  define r where "r = of_int (nearest_even (x / ulp32 x)) * ulp32 x"
  have e: "exponent32 x \<le> K" using assms by (intro exponent32_le) simp_all
  then have i: "2 powr of_int K / ulp32 x = of_int (2 ^ nat (K - exponent32 x + 23))"
    by (intro powr_over_ulp32) simp
  have "x / ulp32 x \<le> 2 powr of_int K / ulp32 x"
    using assms(2) ulp32_pos [of x] by (simp add: divide_right_mono)
  then have "nearest_even (x / ulp32 x) \<le> 2 ^ nat (K - exponent32 x + 23)"
    unfolding i by (rule nearest_even_upper)
  then have "(of_int (nearest_even (x / ulp32 x)) :: real) \<le> of_int (2 ^ nat (K - exponent32 x + 23))"
    by (simp only: of_int_le_iff)
  then have "r \<le> 2 powr of_int K / ulp32 x * ulp32 x"
    unfolding r_def i using ulp32_pos [of x] by (intro mult_right_mono) simp_all
  then have u: "r \<le> 2 powr of_int K" using ulp32_pos [of x] by simp
  have "0 \<le> x / ulp32 x" using assms(1) ulp32_pos [of x] by simp
  then have "0 \<le> nearest_even (x / ulp32 x)"
    using nearest_even_lower [of 0 "x / ulp32 x"] by simp
  then have l: "0 \<le> r" unfolding r_def using ulp32_pos [of x] by simp
  have "2 powr of_int K \<le> (2 powr 127 :: real)" using assms(4) by (intro powr_mono) simp_all
  also have "\<dots> = 2 ^ 127" by simp
  finally have "r < 2 ^ 128" using u by simp
  with l have "\<not> 2 ^ 128 \<le> \<bar>r\<bar>" by simp
  then have "round32 x = Fin r"
    using assms(1) by (simp add: round32_cases r_def)
  with l u show ?thesis by blast
qed

lemma round32_lower:
  assumes "2 powr of_int K \<le> x" and "- 126 \<le> K"
  shows "round32 x = PInf \<or> (\<exists>r. round32 x = Fin r \<and> 2 powr of_int K \<le> r)"
proof -
  define r where "r = of_int (nearest_even (x / ulp32 x)) * ulp32 x"
  have x: "0 < x" using assms(1) powr_gt_zero [of 2 "of_int K"] by (smt (verit))
  then have a: "2 powr of_int K \<le> \<bar>x\<bar>" using assms(1) by simp
  have n: "2 powr of_int (exponent32 x) \<le> x"
    using exponent32_normal [OF a assms(2)] x by simp
  have i: "2 powr of_int (exponent32 x) / ulp32 x = of_int (2 ^ nat (exponent32 x - exponent32 x + 23))"
    by (intro powr_over_ulp32) simp
  have "2 powr of_int (exponent32 x) / ulp32 x \<le> x / ulp32 x"
    using n ulp32_pos [of x] by (simp add: divide_right_mono)
  then have "2 ^ nat (exponent32 x - exponent32 x + 23) \<le> nearest_even (x / ulp32 x)"
    unfolding i by (rule nearest_even_lower)
  then have "(of_int (2 ^ nat (exponent32 x - exponent32 x + 23)) :: real) \<le>
      of_int (nearest_even (x / ulp32 x))"
    by (simp only: of_int_le_iff)
  then have "2 powr of_int (exponent32 x) / ulp32 x * ulp32 x \<le> r"
    unfolding r_def i using ulp32_pos [of x] by (intro mult_right_mono) simp_all
  then have "2 powr of_int (exponent32 x) \<le> r" using ulp32_pos [of x] by simp
  moreover have "2 powr of_int K \<le> (2 powr of_int (exponent32 x) :: real)"
    using exponent32_ge [OF a] by simp
  ultimately have l: "2 powr of_int K \<le> r" by linarith
  show ?thesis
    using x l by (auto simp: round32_cases r_def)
qed

lemma round32_binade:
  assumes "2 powr of_int K \<le> \<bar>x\<bar>" and "\<bar>x\<bar> < 2 powr (of_int K + 1)"
    and "- 126 \<le> K" and "K \<le> 126"
  shows "\<exists>r. round32 x = Fin r \<and> \<bar>r - x\<bar> \<le> 2 powr (of_int K - 24)"
proof -
  define r where "r = of_int (nearest_even (x / ulp32 x)) * ulp32 x"
  have x: "x \<noteq> 0" using assms(1) powr_gt_zero [of 2 "of_int K"] by auto
  have e: "exponent32 x = K" using assms(1,2,3) by (rule exponent32_binade)
  have "ulp32 x / 2 = 2 powr (of_int K - 24)"
    by (simp add: ulp32_def e powr_diff)
  with scaled_error [of x] have err: "\<bar>r - x\<bar> \<le> 2 powr (of_int K - 24)"
    by (simp add: r_def)
  have "2 powr (of_int K + 1) \<le> (2 powr 127 :: real)" using assms(4) by (intro powr_mono) simp_all
  moreover have "2 powr (of_int K - 24) \<le> (2 powr 102 :: real)" using assms(4) by (intro powr_mono) simp_all
  ultimately have "\<bar>r\<bar> < 2 powr 127 + 2 powr 102" using err assms(2) by linarith
  also have "\<dots> \<le> (2 ^ 128 :: real)" by simp
  finally have "\<not> 2 ^ 128 \<le> \<bar>r\<bar>" by simp
  then have "round32 x = Fin r" using x by (simp add: round32_cases r_def)
  with err show ?thesis by blast
qed

lemma round32_one_plus:
  assumes "0 \<le> y" and "y < 1 / 2 ^ 24"
  shows "round32 (1 + y) = Fin 1"
proof -
  have "exponent32 (1 + y) = 0"
    using assms by (intro exponent32_binade) simp_all
  then have u: "ulp32 (1 + y) = 1 / 2 ^ 23"
    by (simp add: ulp32_def powr_minus inverse_eq_divide)
  have "(1 + y) / ulp32 (1 + y) = of_int (2 ^ 23) + y * 2 ^ 23"
    by (simp add: u distrib_right)
  moreover have "0 \<le> y * 2 ^ 23" "y * 2 ^ 23 < 1 / 2"
    using assms by simp_all
  ultimately have "nearest_even ((1 + y) / ulp32 (1 + y)) = 2 ^ 23"
    using nearest_even_near [of "y * 2 ^ 23" "2 ^ 23"] by simp
  then have "of_int (nearest_even ((1 + y) / ulp32 (1 + y))) * ulp32 (1 + y) = 1"
    by (simp add: u)
  moreover have "1 + y \<noteq> 0" using assms by simp
  ultimately show ?thesis by (simp add: round32_cases)
qed

lemma round32_Fin_bound: "round32 x = Fin r \<Longrightarrow> \<bar>r\<bar> < 2 ^ 128"
  by (auto simp: round32_def Let_def split: if_splits)

lemma round32_overflow:
  assumes "2 ^ 128 \<le> x"
  shows "round32 x = PInf"
proof -
  have "(2::real) powr of_int 128 \<le> x" using assms by simp
  then have "round32 x = PInf \<or> (\<exists>r. round32 x = Fin r \<and> 2 powr of_int 128 \<le> r)"
    by (rule round32_lower) simp
  moreover have "\<not> (2::real) powr of_int 128 \<le> r" if "round32 x = Fin r" for r
    using round32_Fin_bound [OF that] by simp
  ultimately show ?thesis by blast
qed

lemma round32_one: "round32 1 = Fin 1"
  using round32_one_plus [of 0] by simp

lemma ulp32_bound:
  assumes "x \<noteq> 0"
  shows "ulp32 x / 2 \<le> \<bar>x\<bar> / 2 ^ 24 + 1 / 2 ^ 150"
proof (cases "- 126 \<le> \<lfloor>log 2 \<bar>x\<bar>\<rfloor>")
  case True
  then have e: "exponent32 x = \<lfloor>log 2 \<bar>x\<bar>\<rfloor>" by (simp add: exponent32_def)
  have "ulp32 x / 2 = 2 powr of_int \<lfloor>log 2 \<bar>x\<bar>\<rfloor> / 2 ^ 24"
    by (simp add: ulp32_def e powr_diff)
  also have "\<dots> \<le> \<bar>x\<bar> / 2 ^ 24"
    using floor_log2_bounds(1) [OF assms] by (simp add: divide_right_mono)
  finally show ?thesis by simp
next
  case False
  then have e: "exponent32 x = - 126" by (simp add: exponent32_def)
  have "ulp32 x / 2 = 1 / 2 ^ 150" by (simp add: ulp32_def e powr_minus inverse_eq_divide)
  then show ?thesis by simp
qed

lemma round32_interval:
  assumes "lo \<le> x" and "x \<le> hi" and "2 powr of_int K \<le> lo" and "hi < 2 powr (of_int K + 1)"
    and "- 126 \<le> K" and "K \<le> 126"
  shows "\<exists>r. round32 x = Fin r \<and> lo - 2 powr (of_int K - 24) \<le> r \<and> r \<le> hi + 2 powr (of_int K - 24)"
proof -
  have "0 < x" using assms(1,3) powr_gt_zero [of 2 "of_int K"] by (smt (verit))
  then have "2 powr of_int K \<le> \<bar>x\<bar>" "\<bar>x\<bar> < 2 powr (of_int K + 1)"
    using assms(1-4) by simp_all
  then obtain r where "round32 x = Fin r" "\<bar>r - x\<bar> \<le> 2 powr (of_int K - 24)"
    using round32_binade [of K x] assms(5,6) by blast
  then show ?thesis using assms(1,2) by (intro exI [of _ r]) (simp add: abs_le_iff)
qed

lemma faithful_exp_exp32: "faithful_exp exp32"
proof -
  have "case round32 (exp x) of
          Fin y \<Rightarrow> 0 \<le> y \<and> \<bar>y - exp x\<bar> \<le> exp x / 2 ^ 20 + 1 / 2 ^ 149
        | PInf \<Rightarrow> 2 ^ 127 \<le> exp x
        | _ \<Rightarrow> False" for x :: real
  proof -
    have p: "0 < exp x" by simp
    consider "round32 (exp x) = PInf" | r where "round32 (exp x) = Fin r" "0 \<le> r"
      using round32_nonneg [of "exp x"] by auto
    then show ?thesis
    proof cases
      case 1
      have "2 ^ 127 \<le> exp x"
      proof (rule ccontr)
        assume "\<not> 2 ^ 127 \<le> exp x"
        then have "exp x \<le> 2 powr of_int 127" by simp
        then have "\<exists>r. round32 (exp x) = Fin r \<and> 0 \<le> r \<and> r \<le> 2 powr of_int 127"
          using p by (intro round32_upper) simp_all
        with 1 show False by auto
      qed
      with 1 show ?thesis by simp
    next
      case 2
      have "\<bar>r - exp x\<bar> \<le> ulp32 (exp x) / 2" using 2(1) by (rule round32_error)
      also have "\<dots> \<le> \<bar>exp x\<bar> / 2 ^ 24 + 1 / 2 ^ 150" by (rule ulp32_bound) simp
      also have "\<dots> \<le> exp x / 2 ^ 20 + 1 / 2 ^ 149"
        by (intro add_mono divide_left_mono) simp_all
      finally show ?thesis using 2 by simp
    qed
  qed
  then show ?thesis by (simp add: faithful_exp_def)
qed

lemma faithful_exp_cases:
  assumes "faithful_exp expf"
  obtains (fin) y where "expf (Fin x) = Fin y" "0 \<le> y" "\<bar>y - exp x\<bar> \<le> exp x / 2 ^ 20 + 1 / 2 ^ 149"
  | (inf) "expf (Fin x) = PInf" "2 ^ 127 \<le> exp x"
proof -
  have "case expf (Fin x) of
          Fin y \<Rightarrow> 0 \<le> y \<and> \<bar>y - exp x\<bar> \<le> exp x / 2 ^ 20 + 1 / 2 ^ 149
        | PInf \<Rightarrow> 2 ^ 127 \<le> exp x
        | _ \<Rightarrow> False"
    using assms by (simp add: faithful_exp_def)
  then show thesis using fin inf by (cases "expf (Fin x)") simp_all
qed

lemma sigmoid32_NaN: "faithful_exp expf \<Longrightarrow> sigmoid32 expf NaN = NaN"
  by (simp add: sigmoid32_def faithful_exp_def)

lemma sigmoid32_PInf: "faithful_exp expf \<Longrightarrow> sigmoid32 expf PInf = Fin 1"
  by (simp add: sigmoid32_def faithful_exp_def round32_one)

lemma sigmoid32_NInf: "faithful_exp expf \<Longrightarrow> sigmoid32 expf NInf = Fin 0"
  by (simp add: sigmoid32_def faithful_exp_def)

lemma sigmoid32_Fin_range:
  assumes "faithful_exp expf"
  shows "in_range 0 1 (sigmoid32 expf (Fin v))"
  using assms
proof (cases rule: faithful_exp_cases [where x = "- v"])
  case inf
  then show ?thesis by (simp add: sigmoid32_def in_range_def)
next
  case (fin y)
  have "(2::real) powr of_int 0 \<le> 1 + y" using fin(2) by simp
  then consider "round32 (1 + y) = PInf" | z where "round32 (1 + y) = Fin z" "1 \<le> z"
    using round32_lower [of 0 "1 + y"] by auto
  then show ?thesis
  proof cases
    case 1
    then show ?thesis using fin(1) by (simp add: sigmoid32_def in_range_def)
  next
    case 2
    have "0 < 1 / z" "1 / z \<le> 2 powr of_int 0" using 2(2) by simp_all
    then obtain r where "round32 (1 / z) = Fin r" "0 \<le> r" "r \<le> 1"
      using round32_upper [of "1 / z" 0] by auto
    then show ?thesis using fin(1) 2 by (simp add: sigmoid32_def in_range_def)
  qed
qed

lemma sigmoid32_range:
  assumes "faithful_exp expf" and "x \<noteq> NaN"
  shows "in_range 0 1 (sigmoid32 expf x)"
  using assms sigmoid32_Fin_range [of expf] sigmoid32_PInf [of expf] sigmoid32_NInf [of expf]
  by (cases x) (simp_all add: in_range_def)

lemma sigmoid32_saturates_one:
  assumes "faithful_exp expf" and "exp (- v) \<le> 1 / 2 ^ 25"
  shows "sigmoid32 expf (Fin v) = Fin 1"
  using assms(1)
proof (cases rule: faithful_exp_cases [where x = "- v"])
  case inf
  have "exp (- v) \<le> 1" using assms(2) by (rule order_trans) simp
  with inf(2) show ?thesis by simp
next
  case (fin y)
  have "exp (- v) / 2 ^ 20 \<le> 1 / 2 ^ 25 / 2 ^ 20"
    using assms(2) by (rule divide_right_mono) simp
  then have "y < 1 / 2 ^ 24" using fin(3) assms(2) by (simp add: abs_le_iff)
  then have "round32 (1 + y) = Fin 1" using fin(2) by (intro round32_one_plus)
  then show ?thesis using fin(1) by (simp add: sigmoid32_def round32_one)
qed

lemma sigmoid32_saturates_zero:
  assumes "faithful_exp expf" and "2 ^ 129 \<le> exp (- v)"
  shows "sigmoid32 expf (Fin v) = Fin 0"
  using assms(1)
proof (cases rule: faithful_exp_cases [where x = "- v"])
  case inf
  then show ?thesis by (simp add: sigmoid32_def)
next
  case (fin y)
  define E where "E = exp (- v)"
  have E: "2 ^ 129 \<le> E" using assms(2) by (simp add: E_def)
  have "E - (E / 2 ^ 20 + 1 / 2 ^ 149) \<le> y" using fin(3) by (simp add: abs_le_iff E_def)
  then have "2 ^ 128 \<le> 1 + y" using E by simp
  then have "round32 (1 + y) = PInf" by (rule round32_overflow)
  then show ?thesis using fin(1) by (simp add: sigmoid32_def)
qed

lemma exp_one_ge: "5 / 2 \<le> exp (1::real)"
  using exp_lower_Taylor_quadratic [of "1::real"] by simp

lemma exp_nat_ge: "(5 / 2) ^ n \<le> exp (real n)"
proof -
  have "(5 / 2 :: real) ^ n \<le> exp 1 ^ n" by (intro power_mono exp_one_ge) simp
  also have "\<dots> = exp (real n)" using exp_of_nat_mult [of n "1::real"] by simp
  finally show ?thesis .
qed

lemma exp_20: "exp (- 20 :: real) \<le> 1 / 2 ^ 25"
proof -
  have "(2::real) ^ 25 \<le> (5 / 2) ^ 20" by (simp add: power_divide)
  also have "\<dots> \<le> exp (real 20)" by (rule exp_nat_ge)
  finally have "2 ^ 25 \<le> exp (20::real)" by simp
  then have "1 / exp (20::real) \<le> 1 / 2 ^ 25" by (intro divide_left_mono) simp_all
  then show ?thesis by (simp add: exp_minus inverse_eq_divide)
qed

lemma exp_104: "2 ^ 129 \<le> exp (104 :: real)"
proof -
  have "(2::real) ^ 129 \<le> (5 / 2) ^ 104" by (simp add: power_divide)
  also have "\<dots> \<le> exp (real 104)" by (rule exp_nat_ge)
  finally show ?thesis by simp
qed

lemma sigmoid32_20: "faithful_exp expf \<Longrightarrow> sigmoid32 expf (Fin 20) = Fin 1"
  using exp_20 by (intro sigmoid32_saturates_one) simp_all

lemma sigmoid32_neg104: "faithful_exp expf \<Longrightarrow> sigmoid32 expf (Fin (- 104)) = Fin 0"
  using exp_104 by (intro sigmoid32_saturates_zero) simp_all

lemma exp_2_bounds: "73887 / 10000 \<le> exp (2 :: real)" "exp (2 :: real) \<le> 73894 / 10000"
proof -
  have l: "13533 / 100000 < exp (- 2 :: real)" and u: "exp (- 2 :: real) < 13534 / 100000"
    by (rule exp_neg2_bounds)+
  have e: "exp (2 :: real) = 1 / exp (- 2)" by (simp add: exp_minus inverse_eq_divide)
  have "1 / (13534 / 100000) \<le> 1 / exp (- 2 :: real)"
    using u by (intro divide_left_mono) simp_all
  then show "73887 / 10000 \<le> exp (2 :: real)" unfolding e by simp
  have "1 / exp (- 2 :: real) \<le> 1 / (13533 / 100000)"
    using l by (intro divide_left_mono) simp_all
  then show "exp (2 :: real) \<le> 73894 / 10000" unfolding e by simp
qed

lemma round32_threshold: "\<exists>r. round32 (3 / 10) = Fin r \<and> 29 / 100 \<le> r \<and> r \<le> 31 / 100"
proof -
  obtain r where "round32 (3 / 10) = Fin r"
    and "3 / 10 - 2 powr (of_int (- 2) - 24) \<le> r" and "r \<le> 3 / 10 + 2 powr (of_int (- 2) - 24)"
    using round32_interval [of "3 / 10" "3 / 10" "3 / 10" "- 2"]
    by (auto simp: powr_minus inverse_eq_divide)
  then show ?thesis by (intro exI [of _ r]) (simp add: powr_minus inverse_eq_divide)
qed

lemma sigmoid32_2:
  assumes "faithful_exp expf"
  shows "in_range (8807 / 10000) (8809 / 10000) (sigmoid32 expf (Fin 2))"
  using assms
proof (cases rule: faithful_exp_cases [where x = "- 2"])
  case inf
  then show ?thesis using exp_neg2_bounds(2) by simp
next
  case (fin y)
  define E where "E = exp (- 2 :: real)"
  have E: "13533 / 100000 < E" "E < 13534 / 100000" unfolding E_def by (rule exp_neg2_bounds)+
  have "\<bar>y - E\<bar> \<le> E / 2 ^ 20 + 1 / 2 ^ 149" using fin(3) by (simp add: E_def)
  then have y: "13532 / 100000 \<le> y" "y \<le> 13535 / 100000" using E by (simp_all add: abs_le_iff)
  obtain z where z: "round32 (1 + y) = Fin z"
    and "1 + 13532 / 100000 - 2 powr (of_int 0 - 24) \<le> z"
    and "z \<le> 1 + 13535 / 100000 + 2 powr (of_int 0 - 24)"
    using round32_interval [of "1 + 13532 / 100000" "1 + y" "1 + 13535 / 100000" 0] y
    by auto
  then have zb: "113531 / 100000 \<le> z" "z \<le> 113536 / 100000"
    by (simp_all add: powr_minus inverse_eq_divide)
  have "1 / (113536 / 100000) \<le> 1 / z" using zb by (intro divide_left_mono) simp_all
  then have l: "88077 / 100000 \<le> 1 / z" by simp
  have "1 / z \<le> 1 / (113531 / 100000)" using zb by (intro divide_left_mono) simp_all
  then have u: "1 / z \<le> 88082 / 100000" by simp
  obtain r where r: "round32 (1 / z) = Fin r"
    and "88077 / 100000 - 2 powr (of_int (- 1) - 24) \<le> r"
    and "r \<le> 88082 / 100000 + 2 powr (of_int (- 1) - 24)"
    using round32_interval [of "88077 / 100000" "1 / z" "88082 / 100000" "- 1"] l u
    by (auto simp: powr_minus inverse_eq_divide)
  then have "8807 / 10000 \<le> r" "r \<le> 8809 / 10000"
    by (simp_all add: powr_minus inverse_eq_divide)
  moreover have "z \<noteq> 0" using zb by simp
  ultimately show ?thesis using fin(1) z r by (simp add: sigmoid32_def in_range_def)
qed

lemma sigmoid32_neg2:
  assumes "faithful_exp expf"
  shows "in_range (1191 / 10000) (1193 / 10000) (sigmoid32 expf (Fin (- 2)))"
  using assms
proof (cases rule: faithful_exp_cases [where x = 2])
  case inf
  then show ?thesis using exp_2_bounds(2) by simp
next
  case (fin y)
  define E where "E = exp (2 :: real)"
  have E: "73887 / 10000 \<le> E" "E \<le> 73894 / 10000" unfolding E_def by (rule exp_2_bounds)+
  have "\<bar>y - E\<bar> \<le> E / 2 ^ 20 + 1 / 2 ^ 149" using fin(3) by (simp add: E_def)
  then have y: "73886 / 10000 \<le> y" "y \<le> 73895 / 10000" using E by (simp_all add: abs_le_iff)
  obtain z where z: "round32 (1 + y) = Fin z"
    and "1 + 73886 / 10000 - 2 powr (of_int 3 - 24) \<le> z"
    and "z \<le> 1 + 73895 / 10000 + 2 powr (of_int 3 - 24)"
    using round32_interval [of "1 + 73886 / 10000" "1 + y" "1 + 73895 / 10000" 3] y
    by auto
  then have zb: "83885 / 10000 \<le> z" "z \<le> 83896 / 10000"
    by (simp_all add: powr_minus inverse_eq_divide)
  have "1 / (83896 / 10000) \<le> 1 / z" using zb by (intro divide_left_mono) simp_all
  then have l: "11919 / 100000 \<le> 1 / z" by simp
  have "1 / z \<le> 1 / (83885 / 10000)" using zb by (intro divide_left_mono) simp_all
  then have u: "1 / z \<le> 11922 / 100000" by simp
  obtain r where r: "round32 (1 / z) = Fin r"
    and "11919 / 100000 - 2 powr (of_int (- 4) - 24) \<le> r"
    and "r \<le> 11922 / 100000 + 2 powr (of_int (- 4) - 24)"
    using round32_interval [of "11919 / 100000" "1 / z" "11922 / 100000" "- 4"] l u
    by (auto simp: powr_minus inverse_eq_divide)
  then have "1191 / 10000 \<le> r" "r \<le> 1193 / 10000"
    by (simp_all add: powr_minus inverse_eq_divide)
  moreover have "z \<noteq> 0" using zb by simp
  ultimately show ?thesis using fin(1) z r by (simp add: sigmoid32_def in_range_def)
qed

lemma mask_values32_nth:
  "i < n \<Longrightarrow> i < length output_data \<Longrightarrow>
   mask_values32 expf t output_data n ! i = mask_value32 expf t (output_data ! i)"
  by (simp add: mask_values32_def)

lemma mask_value32_NaN: "faithful_exp expf \<Longrightarrow> mask_value32 expf t NaN = Fin 0"
  by (cases t) (simp_all add: mask_value32_def sigmoid32_NaN flt_greater_def)

lemma mask_value32_le: "flt_le (sigmoid32 expf x) t \<Longrightarrow> mask_value32 expf t x = Fin 0"
  by (simp add: mask_value32_def flt_le_def flt_greater_def)

lemma mask_value32_greater:
  "flt_greater (sigmoid32 expf x) t \<Longrightarrow> mask_value32 expf t x = sigmoid32 expf x"
  by (simp add: mask_value32_def)

lemma mask_values32_scenario:
  assumes "faithful_exp expf"
  shows "mask_values32 expf (round32 (3 / 10)) [Fin 2, Fin (- 2)] 2 = [sigmoid32 expf (Fin 2), Fin 0]"
proof -
  obtain t where t: "round32 (3 / 10) = Fin t" "29 / 100 \<le> t" "t \<le> 31 / 100"
    using round32_threshold by blast
  obtain p where p: "sigmoid32 expf (Fin 2) = Fin p" "8807 / 10000 \<le> p"
    using sigmoid32_2 [OF assms] by (auto simp: in_range_def split: c_float.splits)
  obtain q where q: "sigmoid32 expf (Fin (- 2)) = Fin q" "q \<le> 1193 / 10000"
    using sigmoid32_neg2 [OF assms] by (auto simp: in_range_def split: c_float.splits)
  have "flt_greater (sigmoid32 expf (Fin 2)) (round32 (3 / 10))"
    using t p by (simp add: flt_greater_def)
  moreover have "\<not> flt_greater (sigmoid32 expf (Fin (- 2))) (round32 (3 / 10))"
    using t q by (simp add: flt_greater_def)
  ultimately show ?thesis by (simp add: mask_values32_def mask_value32_def)
qed

text \<open>
  Claim C5, amended: in the single-precision arithmetic of the loop of \<^verbatim>\<open>Postprocess\<close>, with a
  \<^verbatim>\<open>std::exp\<close> of the accuracy stated above, every raw value that is not a NaN is mapped to a
  sigmoid in the closed interval from 0 to 1, and the ends are reached: the raw value 20 gives
  exactly 1 and the raw value -104 gives exactly 0. The mask value is zero when the sigmoid is
  at most the threshold, and when the raw value is a NaN, and is the sigmoid when the sigmoid
  is above the threshold. With the threshold 0.3 the raw value 2 gives a mask value within
  0.0001 of 0.8808 and the raw value -2, whose sigmoid is within 0.0001 of 0.1192, gives 0.
\<close>

theorem mask_values32_sigmoid_threshold:
  assumes "faithful_exp expf"
  shows "(i < n \<and> i < length output_data \<longrightarrow>
      (output_data ! i \<noteq> NaN \<longrightarrow> in_range 0 1 (sigmoid32 expf (output_data ! i))) \<and>
      (output_data ! i = NaN \<longrightarrow> mask_values32 expf t output_data n ! i = Fin 0) \<and>
      (flt_le (sigmoid32 expf (output_data ! i)) t \<longrightarrow>
         mask_values32 expf t output_data n ! i = Fin 0) \<and>
      (flt_greater (sigmoid32 expf (output_data ! i)) t \<longrightarrow>
         mask_values32 expf t output_data n ! i = sigmoid32 expf (output_data ! i))) \<and>
   sigmoid32 expf (Fin 20) = Fin 1 \<and>
   sigmoid32 expf (Fin (- 104)) = Fin 0 \<and>
   mask_values32 expf (round32 (3 / 10)) [Fin 2, Fin (- 2)] 2 = [sigmoid32 expf (Fin 2), Fin 0] \<and>
   in_range (8807 / 10000) (8809 / 10000) (sigmoid32 expf (Fin 2)) \<and>
   in_range (1191 / 10000) (1193 / 10000) (sigmoid32 expf (Fin (- 2)))"
  (is "?each \<and> ?one \<and> ?zero \<and> ?scenario \<and> ?kept \<and> ?dropped")
proof -
  have ?each
    using assms
    by (simp add: mask_values32_nth sigmoid32_range mask_value32_NaN mask_value32_le
        mask_value32_greater)
  moreover have ?one using assms by (rule sigmoid32_20)
  moreover have ?zero using assms by (rule sigmoid32_neg104)
  moreover have ?scenario using assms by (rule mask_values32_scenario)
  moreover have ?kept using assms by (rule sigmoid32_2)
  moreover have ?dropped using assms by (rule sigmoid32_neg2)
  ultimately show ?thesis by (intro conjI)
qed

text \<open>
  Claim C5 with the exponential rounded to the nearest single-precision number, on the raw
  values 20, -104 and NaN with the threshold 0.3: the mask values are 1, 0 and 0.
\<close>

theorem mask_values32_sigmoid_threshold_witness:
  "faithful_exp exp32 \<and>
   mask_values32 exp32 (round32 (3 / 10)) [Fin 20, Fin (- 104), NaN] 3 ! 0 = Fin 1 \<and>
   mask_values32 exp32 (round32 (3 / 10)) [Fin 20, Fin (- 104), NaN] 3 ! 1 = Fin 0 \<and>
   mask_values32 exp32 (round32 (3 / 10)) [Fin 20, Fin (- 104), NaN] 3 ! 2 = Fin 0"
proof -
  obtain t where t: "round32 (3 / 10) = Fin t" "29 / 100 \<le> t" "t \<le> 31 / 100"
    using round32_threshold by blast
  note T = mask_values32_sigmoid_threshold [OF faithful_exp_exp32, where n = 3
      and output_data = "[Fin 20, Fin (- 104), NaN]" and t = "round32 (3 / 10)"]
  have one: "sigmoid32 exp32 (Fin 20) = Fin 1" and zero: "sigmoid32 exp32 (Fin (- 104)) = Fin 0"
    using T [of 0] by simp_all
  have "flt_greater (sigmoid32 exp32 (Fin 20)) (round32 (3 / 10))"
    using t by (simp add: one flt_greater_def)
  then have a: "mask_values32 exp32 (round32 (3 / 10)) [Fin 20, Fin (- 104), NaN] 3 ! 0 = Fin 1"
    using T [of 0] one by simp
  have "flt_le (sigmoid32 exp32 (Fin (- 104))) (round32 (3 / 10))"
    using t by (simp add: zero flt_le_def)
  then have b: "mask_values32 exp32 (round32 (3 / 10)) [Fin 20, Fin (- 104), NaN] 3 ! 1 = Fin 0"
    using T [of 1] by simp
  have c: "mask_values32 exp32 (round32 (3 / 10)) [Fin 20, Fin (- 104), NaN] 3 ! 2 = Fin 0"
    using T [of 2] by simp
  show ?thesis using faithful_exp_exp32 a b c by simp
qed

text \<open>
  Claim C5 as stated fails: the sigmoid of line 239 is not always strictly between 0 and 1. At
  the raw value 20 it is exactly 1, and at the raw value -104 it is exactly 0.
\<close>

theorem sigmoid32_open_interval_counterexample:
  "sigmoid32 exp32 (Fin 20) = Fin 1 \<and> \<not> in_open_unit (sigmoid32 exp32 (Fin 20)) \<and>
   sigmoid32 exp32 (Fin (- 104)) = Fin 0 \<and> \<not> in_open_unit (sigmoid32 exp32 (Fin (- 104)))"
  using sigmoid32_20 [OF faithful_exp_exp32] sigmoid32_neg104 [OF faithful_exp_exp32]
  by (simp add: in_open_unit_def)

subsection \<open>The threshold applied twice\<close>

text \<open>
  Claim C6: for every mask and every threshold, the threshold step applied twice gives the
  same mask as applied once.
\<close>

theorem threshold_step_idempotent:
  "map (threshold_step t) (map (threshold_step t) mask_data) = map (threshold_step t) mask_data"
  by (simp add: threshold_step_twice)

text \<open>Claim C6 on a mask with one value below and one above the threshold.\<close>

theorem threshold_step_idempotent_witness:
  "map (threshold_step (Fin (1 / 2))) [1 / 5, 9 / 10] = [0, 9 / 10] \<and>
   map (threshold_step (Fin (1 / 2))) (map (threshold_step (Fin (1 / 2))) [1 / 5, 9 / 10]) =
     [0, 9 / 10]"
proof -
  have a: "map (threshold_step (Fin (1 / 2))) [1 / 5, 9 / 10] = [0, 9 / 10]"
    by (simp add: threshold_step_def flt_greater_def)
  show ?thesis
    using threshold_step_idempotent [of "Fin (1 / 2)" "[1 / 5, 9 / 10]"] a by simp
qed

section \<open>Properties of resampling\<close>














lemma demo_Postprocess: "Postprocess demo_kernel [0, 0, 0, 0] 2 2 3 3 (Fin (3 / 10)) = Done demo_mask"
  by (simp add: Postprocess_def mask_values_def sigmoid_def threshold_step_def flt_greater_def
      cv_resize_def resample_def apply_taps_def demo_kernel_def demo_mask_def upt_rec)

lemma demo_frame_mask: "frame_mask demo_library demo_filter demo_image = Done demo_mask"
  by (simp add: frame_mask_def RunInference_def demo_library_def demo_filter_def demo_image_def
      new_ModelInference_def demo_ort_def to_int_def demo_Postprocess
      cv_GaussianBlur_def resample_def apply_taps_def demo_kernel_def demo_mask_def upt_rec)


section \<open>Properties of compositing\<close>












lemma those_map_Some: "those (map Some xs) = Some xs"
  by (induction xs) simp_all

lemma per_pixel_defined:
  assumes "\<And>y x. y < rows \<Longrightarrow> x < cols \<Longrightarrow> f y x = Some (g y x)"
  shows "per_pixel rows cols f = Some (concat (map (\<lambda>y. map (\<lambda>x. g y x) [0..<cols]) [0..<rows]))"
proof -
  have "concat (map (\<lambda>y. map (\<lambda>x. f y x) [0..<cols]) [0..<rows]) =
        concat (map (\<lambda>y. map (\<lambda>x. Some (g y x)) [0..<cols]) [0..<rows])"
    using assms by (intro arg_cong [where f = concat] map_cong) simp_all
  also have "\<dots> = map Some (concat (map (\<lambda>y. map (\<lambda>x. g y x) [0..<cols]) [0..<rows]))"
    by (simp add: map_concat comp_def)
  finally show ?thesis by (simp add: per_pixel_def those_map_Some)
qed

lemma index_in_range: "y < rows \<Longrightarrow> x < cols \<Longrightarrow> y * cols + x < rows * (cols :: nat)"
proof -
  assume y: "y < rows" and x: "x < cols"
  have "y * cols + x < y * cols + cols" using x by simp
  also have "\<dots> = Suc y * cols" by simp
  also have "\<dots> \<le> rows * cols" using y by (intro mult_le_mono1) simp
  finally show ?thesis .
qed




lemma reads_defined:
  assumes "length (i_data input_frame) = i_rows input_frame * i_cols input_frame"
    and "m_cols msk = i_cols input_frame"
    and "length (m_data msk) = i_rows input_frame * i_cols input_frame"
    and "y < i_rows input_frame" and "x < i_cols input_frame"
  shows "pixel_at input_frame y x = Some (i_data input_frame ! (y * i_cols input_frame + x))"
    and "mask_at msk y x = Some (m_data msk ! (y * i_cols input_frame + x))"
    and "m_data msk ! (y * i_cols input_frame + x) \<in> set (m_data msk)"
  using assms index_in_range [of y "i_rows input_frame" x "i_cols input_frame"]
  by (simp_all add: pixel_at_def mask_at_def)

lemma blend_loop:
  assumes "length (i_data input_frame) = i_rows input_frame * i_cols input_frame"
    and "m_cols msk = i_cols input_frame"
    and "length (m_data msk) = i_rows input_frame * i_cols input_frame"
    and "\<forall>v\<in>set (m_data msk). v = a"
  shows "per_pixel (i_rows input_frame) (i_cols input_frame)
           (blend_at input_frame msk bg) =
         Some (concat (map (\<lambda>y. map (\<lambda>x.
                 blend (i_data input_frame ! (y * i_cols input_frame + x)) a (bg y x))
               [0..<i_cols input_frame]) [0..<i_rows input_frame]))"
proof (rule per_pixel_defined)
  fix y x
  assume "y < i_rows input_frame" and "x < i_cols input_frame"
  from reads_defined [OF assms(1,2,3) this] assms(4)
  show "blend_at input_frame msk bg y x =
        Some (blend (i_data input_frame ! (y * i_cols input_frame + x)) a (bg y x))"
    by (simp add: blend_at_def)
qed




lemma demo_bg_color: "bg_color_of (replacement_color demo_filter) = (0, 255, 0)"
  by (simp add: bg_color_of_def demo_filter_def)


section \<open>Properties of the per-frame entry point\<close>

text \<open>The state after a frame that is passed through: only the recorded size can differ.\<close>

lemma record_size:
  "(if width d \<noteq> w \<or> height d \<noteq> h then d\<lparr>width := w, height := h\<rparr> else d) =
   (d :: background_filter_data)\<lparr>width := w, height := h\<rparr>"
  by (cases d) auto

lemma frame_mask_Failed:
  "RunInference (run_session lib) (resize_kernel lib) (inference data) input_frame (threshold data)
     = Failed \<Longrightarrow> frame_mask lib data input_frame = Failed"
  by (simp add: frame_mask_def)

lemma frame_mask_flags:
  "frame_mask lib (data\<lparr>processing := p, width := w, height := h\<rparr>) input_frame =
   frame_mask lib data input_frame"
  by (auto simp: frame_mask_def split: outcome.splits)

lemma composite_flags:
  "composite b (data\<lparr>processing := p, width := w, height := h\<rparr>) input_frame msk =
   composite b data input_frame msk"
  by (simp add: composite_def)

text \<open>The entry point past its first test, with the state written out.\<close>

lemma video_loaded:
  assumes "model_loaded data" and "\<not> processing data"
  shows "background_filter_video lib data frame =
     (let d3 = data\<lparr>width := fr_width frame, height := fr_height frame\<rparr>
      in if \<not> supported_format (fr_format frame) then Some (d3, frame)
         else
           (case cvt_to_bgr lib (fr_format frame) (fr_height frame) (fr_width frame)
                   (fr_data frame) of
              None \<Rightarrow> Some (d3, frame)
            | Some input_frame \<Rightarrow>
                (case frame_mask lib data input_frame of
                   Failed \<Rightarrow> Some (d3, frame)
                 | Undefined \<Rightarrow> None
                 | Done msk \<Rightarrow>
                     (case composite (blur_image lib) data input_frame msk of
                        Failed \<Rightarrow> Some (d3, frame)
                      | Undefined \<Rightarrow> None
                      | Done output_frame \<Rightarrow>
                          (case cvt_from_bgr lib (fr_format frame) output_frame of
                             None \<Rightarrow> Some (d3, frame)
                           | Some bytes \<Rightarrow>
                               if length bytes > length (fr_data frame) then None
                               else Some (d3, frame\<lparr>fr_data :=
                                       bytes @ drop (length bytes) (fr_data frame)\<rparr>))))))"
proof -
  have p: "data\<lparr>processing := True, width := fr_width frame, height := fr_height frame,
               processing := False\<rparr> = data\<lparr>width := fr_width frame, height := fr_height frame\<rparr>"
    using assms(2) by (cases data) simp
  show ?thesis
    unfolding background_filter_video_def Let_def record_size frame_mask_flags composite_flags p
    using assms by simp
qed

lemma video_unsupported:
  assumes "\<not> supported_format (fr_format frame)"
  shows "background_filter_video lib data frame =
     Some (if model_loaded data \<and> \<not> processing data
           then data\<lparr>width := fr_width frame, height := fr_height frame\<rparr> else data, frame)"
proof (cases "model_loaded data \<and> \<not> processing data")
  case True
  then show ?thesis using assms by (simp add: video_loaded)
next
  case False
  then show ?thesis by (auto simp: background_filter_video_def)
qed

lemma video_inference_fails:
  assumes "supported_format (fr_format frame)"
    and "cvt_to_bgr lib (fr_format frame) (fr_height frame) (fr_width frame) (fr_data frame) =
           Some input_frame"
    and "RunInference (run_session lib) (resize_kernel lib) (inference data) input_frame
           (threshold data) = Failed"
  shows "background_filter_video lib data frame =
     Some (if model_loaded data \<and> \<not> processing data
           then data\<lparr>width := fr_width frame, height := fr_height frame\<rparr> else data, frame)"
proof (cases "model_loaded data \<and> \<not> processing data")
  case True
  then show ?thesis using assms by (simp add: video_loaded frame_mask_Failed)
next
  case False
  then show ?thesis by (auto simp: background_filter_video_def)
qed

lemma video_after_size_change:
  assumes "model_loaded data" and "\<not> processing data"
  shows "background_filter_video lib (data\<lparr>width := w, height := h\<rparr>) frame2 =
         background_filter_video lib data frame2"
proof -
  have f: "frame_mask lib (data\<lparr>width := w, height := h\<rparr>) i = frame_mask lib data i" for i
    by (auto simp: frame_mask_def split: outcome.splits)
  have c: "composite b (data\<lparr>width := w, height := h\<rparr>) i m = composite b data i m" for b i m
    by (simp add: composite_def)
  have l: "model_loaded (data\<lparr>width := w, height := h\<rparr>)"
    and p: "\<not> processing (data\<lparr>width := w, height := h\<rparr>)"
    using assms by simp_all
  show ?thesis
    unfolding video_loaded [OF assms] video_loaded [OF l p] f c by simp
qed

text \<open>
  Claim C8, amended. When the format of the frame is not supported, or the inference fails on
  it, the entry point returns the frame as it came; the state of the filter is the one before
  the call, except that the recorded width and height are those of the frame when the model is
  loaded and no frame is in process; and every later frame is processed as it would have been
  from the state before the call.
\<close>

theorem video_pass_through:
  "\<not> supported_format (fr_format frame) \<or> inference_fails lib data frame \<Longrightarrow>
   background_filter_video lib data frame =
     Some (if model_loaded data \<and> \<not> processing data
           then data\<lparr>width := fr_width frame, height := fr_height frame\<rparr> else data, frame) \<and>
   (\<forall>frame2.
      background_filter_video lib
        (if model_loaded data \<and> \<not> processing data
         then data\<lparr>width := fr_width frame, height := fr_height frame\<rparr> else data) frame2 =
      background_filter_video lib data frame2)"
proof (intro conjI allI)
  assume a: "\<not> supported_format (fr_format frame) \<or> inference_fails lib data frame"
  show "background_filter_video lib data frame =
     Some (if model_loaded data \<and> \<not> processing data
           then data\<lparr>width := fr_width frame, height := fr_height frame\<rparr> else data, frame)"
  proof (cases "supported_format (fr_format frame)")
    case False
    then show ?thesis by (rule video_unsupported)
  next
    case True
    with a obtain input_frame where
      "cvt_to_bgr lib (fr_format frame) (fr_height frame) (fr_width frame) (fr_data frame) =
         Some input_frame"
      "RunInference (run_session lib) (resize_kernel lib) (inference data) input_frame
         (threshold data) = Failed"
      by (auto simp: inference_fails_def split: option.splits)
    with True show ?thesis by (rule video_inference_fails)
  qed
next
  fix frame2
  show "background_filter_video lib
        (if model_loaded data \<and> \<not> processing data
         then data\<lparr>width := fr_width frame, height := fr_height frame\<rparr> else data) frame2 =
      background_filter_video lib data frame2"
    by (simp add: video_after_size_change)
qed

lemma demo_inference_fails:
  "inference_fails (demo_library\<lparr>run_session := (\<lambda>img. None)\<rparr>) demo_filter demo_frame"
  by (simp add: inference_fails_def supported_format_def demo_frame_def demo_library_def
      RunInference_def demo_filter_def new_ModelInference_def demo_ort_def)

text \<open>Claim C8 on a frame in an unsupported format and on a frame whose inference throws.\<close>

theorem video_pass_through_witness:
  "\<not> supported_format (fr_format demo_frame_bgra) \<and>
   background_filter_video demo_library demo_filter demo_frame_bgra =
     Some (demo_filter\<lparr>width := 640, height := 480\<rparr>, demo_frame_bgra) \<and>
   inference_fails (demo_library\<lparr>run_session := (\<lambda>img. None)\<rparr>) demo_filter demo_frame \<and>
   background_filter_video (demo_library\<lparr>run_session := (\<lambda>img. None)\<rparr>) demo_filter demo_frame =
     Some (demo_filter\<lparr>width := 3, height := 3\<rparr>, demo_frame)"
proof -
  have u: "\<not> supported_format (fr_format demo_frame_bgra)"
    by (simp add: supported_format_def demo_frame_bgra_def)
  have l: "model_loaded demo_filter \<and> \<not> processing demo_filter"
    by (simp add: demo_filter_def)
  have "background_filter_video demo_library demo_filter demo_frame_bgra =
     Some (demo_filter\<lparr>width := 640, height := 480\<rparr>, demo_frame_bgra)"
    using video_pass_through [of demo_frame_bgra demo_library demo_filter] u l
    by (simp add: demo_frame_bgra_def)
  moreover have "background_filter_video (demo_library\<lparr>run_session := (\<lambda>img. None)\<rparr>)
      demo_filter demo_frame = Some (demo_filter\<lparr>width := 3, height := 3\<rparr>, demo_frame)"
    using video_pass_through [of demo_frame "demo_library\<lparr>run_session := (\<lambda>img. None)\<rparr>"
        demo_filter] demo_inference_fails l
    by (simp add: demo_frame_def)
  ultimately show ?thesis using u demo_inference_fails by (intro conjI)
qed

text \<open>
  Claim C8 as stated fails: the first frame a loaded filter receives, in an unsupported
  format, is returned as it came, but the state of the filter is not the one before the call.
\<close>

theorem video_state_change_counterexample:
  "\<not> supported_format (fr_format demo_frame_bgra) \<and>
   map_option snd (background_filter_video demo_library demo_filter demo_frame_bgra) =
     Some demo_frame_bgra \<and>
   map_option fst (background_filter_video demo_library demo_filter demo_frame_bgra) \<noteq>
     Some demo_filter"
  by (simp add: video_unsupported supported_format_def demo_frame_bgra_def demo_filter_def)

lemma demo_blend: "blend (10, 20, 30) (1 / 2) (0, 255, 0) = (5, 138, 15)"
  by (simp add: blend_def vec_scale_def vec_add_def saturate_uchar_def saturate_int_def cvRound_def)

text \<open>The entry point on a frame that is processed: every pixel is blended with the green.\<close>

lemma demo_video:
  "background_filter_video demo_library demo_filter demo_frame =
     Some (demo_filter\<lparr>width := 3, height := 3\<rparr>,
           demo_frame\<lparr>fr_data := concat (replicate 9 [15, 138, 5, 255])\<rparr>)"
proof -
  have l: "model_loaded demo_filter" "\<not> processing demo_filter"
    by (simp_all add: demo_filter_def)
  have f: "fr_format demo_frame = VIDEO_FORMAT_RGBA" "fr_width demo_frame = 3"
    "fr_height demo_frame = 3" "length (fr_data demo_frame) = 36"
    by (simp_all add: demo_frame_def)
  have c: "cvt_to_bgr demo_library VIDEO_FORMAT_RGBA 3 3 (fr_data demo_frame) = Some demo_image"
    by (simp add: demo_library_def demo_frame_def)
  have "per_pixel (i_rows demo_image) (i_cols demo_image)
          (blend_at demo_image demo_mask (\<lambda>y x. (0, 255, 0))) =
        Some (concat (map (\<lambda>y. map (\<lambda>x.
              blend (i_data demo_image ! (y * i_cols demo_image + x)) (1 / 2) (0, 255, 0))
            [0..<i_cols demo_image]) [0..<i_rows demo_image]))"
    by (rule blend_loop) (simp_all add: demo_image_def demo_mask_def)
  then have p: "per_pixel (i_rows demo_image) (i_cols demo_image)
          (blend_at demo_image demo_mask (\<lambda>y x. (0, 255, 0))) =
        Some (replicate 9 (5, 138, 15))"
    by (simp add: demo_image_def upt_rec demo_blend) (simp add: numeral_eq_Suc)
  have m: "composite (blur_image demo_library) demo_filter demo_image demo_mask =
      Done (demo_image\<lparr>i_data := replicate 9 (5, 138, 15)\<rparr>)"
    unfolding composite_def demo_bg_color p by (simp add: demo_filter_def)
  have o: "cvt_from_bgr demo_library VIDEO_FORMAT_RGBA
      (demo_image\<lparr>i_data := replicate 9 (5, 138, 15)\<rparr>) =
      Some (concat (replicate 9 [15, 138, 5, 255]))"
    by (simp add: demo_library_def)
  have n: "length (concat (replicate 9 [15, 138, 5, 255 :: 8 word])) = 36"
    by (simp add: length_concat sum_list_replicate)
  show ?thesis
    by (simp add: video_loaded [OF l] supported_format_def f c demo_frame_mask m o n)
qed

end
